theory Spec2Isabelle
  imports Main
begin

section \<open>SparkConnector: the session registry and the phase state machine\<close>

text \<open>
  A shallow embedding of \<^verbatim>\<open>src/SparkConnector/src/widgets/sparkconnector.ts\<close>.
  The widget is event driven: every callback the source installs (a slot connected to a
  signal, a continuation of a promise, a handler of a comm) is a function from the state
  of the widget to the new state, and every event the host can deliver is a constructor
  of \<open>event\<close>. A signal runs each slot connected to it, so a signal with \<open>n\<close> slots
  connected runs its handler \<open>n\<close> times.
\<close>

subsection \<open>Data\<close>

type_synonym notebook_id = string
type_synonym comm_id = nat

text \<open>JSON values the widget only passes on are kept as their text.\<close>

type_synonym json = string

record SparkOpt =
  opt_name :: string
  opt_value :: string

record SparkconnectMetadata =
  bundled_options :: "string list"
  list_of_options :: "SparkOpt list"

text \<open>\<^verbatim>\<open>ConnectionStatus\<close> and \<^verbatim>\<open>Kernel.Status\<close> of the kernel connection.\<close>

datatype ConnectionStatus = connected | connecting | disconnected

datatype KernelStatus =
  unknown | starting | idle | busy | terminating | restarting | autorestarting | dead

text \<open>
  The object \<^verbatim>\<open>currentState\<close> points to: one of the two objects of
  \<^verbatim>\<open>UndefinedStates\<close>, or a phase object of the \<^verbatim>\<open>NotebookStates\<close> of a comm.
\<close>

datatype IState =
  NotAttached | Loading
  | Configuring comm_id | Connecting comm_id | Connected comm_id | ConnectFailed comm_id

text \<open>
  Modelled from the spec: the phase classes (\<^verbatim>\<open>./configuring\<close>, \<^verbatim>\<open>./connecting\<close>,
  \<^verbatim>\<open>./connected\<close>, \<^verbatim>\<open>./connectfailed\<close>, \<^verbatim>\<open>./loading\<close>, \<^verbatim>\<open>./notattached\<close>)
  are not among the sources. Each phase has a stable name; \<^verbatim>\<open>init\<close> repopulates the data
  of the phase from its arguments; \<^verbatim>\<open>log\<close> appends a line; the notification of a phase
  runs every handler connected to it.
\<close>

fun name :: "IState \<Rightarrow> string" where
  "name NotAttached = ''notattached''"
| "name Loading = ''loading''"
| "name (Configuring c) = ''configuring''"
| "name (Connecting c) = ''connecting''"
| "name (Connected c) = ''connected''"
| "name (ConnectFailed c) = ''connectfailed''"

record ConfigurationData =
  cfg_title :: string
  cfg_maxmemory :: string
  cfg_sparkversion :: string
  cfg_cluster :: string
  cfg_currentConfig :: SparkconnectMetadata
  cfg_availableoptions :: json
  cfg_availablebundles :: json

text \<open>
  \<^verbatim>\<open>NotebookStates\<close>: the four phase objects of one comm. Each \<open>\<dots>_data\<close> field is
  what the last \<^verbatim>\<open>init\<close> stored (\<open>None\<close> before the first). \<open>onConnect\<close> lists the
  handlers connected to \<^verbatim>\<open>configuring.onConnect\<close>, each with the title, the Spark version
  and the cluster its closure captured; the two \<^verbatim>\<open>onReconfigure\<close> handlers capture
  nothing of the message, so counting them is enough.
\<close>

record NotebookStates =
  configuring :: "ConfigurationData option"
  onConnect :: "(string \<times> string \<times> string) list"
  connecting_data :: "(string \<times> string \<times> string) option"
  connecting_log :: "string list"
  connected_data :: "(string \<times> string) option"
  connected_log :: "string list"
  connected_onReconfigure :: nat
  connectfailed_data :: "(string \<times> string) option"
  connectfailed_onReconfigure :: nat

text \<open>
  \<^verbatim>\<open>IComm\<close>: \<open>open_done\<close> says the future of \<^verbatim>\<open>comm.open(...)\<close> has resolved;
  \<open>creator\<close> is the \<^verbatim>\<open>StateHandler\<close> instance whose \<^verbatim>\<open>create\<close> made the comm, the
  \<^verbatim>\<open>this\<close> of the two arrow functions \<^verbatim>\<open>create\<close> installs.
\<close>

record IComm =
  isDisposed :: bool
  open_done :: bool
  creator :: nat

record NotebookComm =
  notebook :: notebook_id
  states :: NotebookStates
  comm :: IComm

text \<open>An outbound message; \<open>type\<close> is \<open>None\<close> when the object literal has no such field.\<close>

record envelope =
  type :: "string option"
  action :: string
  action_data :: "json option"

datatype outbound = CommOpen comm_id envelope | CommSend comm_id envelope

text \<open>
  \<^verbatim>\<open>message.content.data\<close> of an incoming comm message. \<open>config\<close> is \<open>None\<close> when the
  data has no \<^verbatim>\<open>config\<close> object, and otherwise holds \<^verbatim>\<open>config.sparkhistoryserver\<close>.
\<close>

record comm_data =
  msgtype :: string
  page :: string
  maxmemory :: string
  sparkversion :: string
  cluster :: string
  availableoptions :: json
  availablebundles :: json
  config :: "string option"
  error :: string
  msg :: string

text \<open>The argument of \<^verbatim>\<open>onConnect\<close>: \<^verbatim>\<open>connectMessage['metadata']\<close> and \<^verbatim>\<open>['options']\<close>.\<close>

record connect_message =
  cm_metadata :: SparkconnectMetadata
  cm_options :: json

text \<open>
  The part of the host the widget reads: the focused notebook, whether the session
  context of a notebook is ready, the connection status of its kernel, its title and its
  metadata.
\<close>

record host =
  h_currentWidget :: "notebook_id option"
  h_ready :: "notebook_id \<Rightarrow> bool"
  h_connectionStatus :: "notebook_id \<Rightarrow> ConnectionStatus"
  h_title :: "notebook_id \<Rightarrow> string"
  h_metadata :: "notebook_id \<Rightarrow> string \<rightharpoonup> SparkconnectMetadata"

text \<open>
  The widget and what it has installed in the host.
  \<^item> \<open>statehandler\<close> is the map \<^verbatim>\<open>states\<close> of the current \<^verbatim>\<open>StateHandler\<close>, holding
    references into \<open>comms\<close>, the \<^verbatim>\<open>NotebookComm\<close> objects made so far;
    \<open>statehandler_id\<close> tells the instances apart.
  \<^item> \<open>updates\<close> counts the calls of \<^verbatim>\<open>this.update()\<close>.
  \<^item> \<open>focus_slots\<close>, \<open>status_slots\<close> and \<open>restart_slots\<close> count the slots connected to
    \<^verbatim>\<open>notebooks.currentChanged\<close>, \<^verbatim>\<open>kernel.connectionStatusChanged\<close> and
    \<^verbatim>\<open>kernel.statusChanged\<close>; \<open>ready_waiting\<close> and \<open>reset_waiting\<close> count the
    continuations waiting on \<^verbatim>\<open>sessionContext.ready\<close> and on \<^verbatim>\<open>kernel.reconnect()\<close>.
  \<^item> \<open>outbox\<close>, \<open>reconnects\<close> and \<open>restarts\<close> log what the widget asked of the host.
\<close>

record SparkConnector =
  currentWidget :: "notebook_id option"
  session_ready :: "notebook_id \<Rightarrow> bool"
  connectionStatus :: "notebook_id \<Rightarrow> ConnectionStatus"
  title :: "notebook_id \<Rightarrow> string"
  metadata :: "notebook_id \<Rightarrow> string \<rightharpoonup> SparkconnectMetadata"
  statehandler :: "notebook_id \<rightharpoonup> comm_id"
  statehandler_id :: nat
  comms :: "NotebookComm list"
  currentState :: "IState option"
  updates :: nat
  focus_slots :: nat
  ready_waiting :: "notebook_id \<Rightarrow> nat"
  status_slots :: "notebook_id \<Rightarrow> nat"
  restart_slots :: "notebook_id \<Rightarrow> nat"
  reset_waiting :: "notebook_id \<Rightarrow> nat"
  outbox :: "outbound list"
  reconnects :: "notebook_id list"
  restarts :: "notebook_id list"

subsection \<open>The session registry (\<^verbatim>\<open>StateHandler\<close>)\<close>

text \<open>
  \<^verbatim>\<open>canOpen\<close> compares with the id of the focused notebook and throws (\<open>None\<close>) when no
  notebook is focused; nothing in the widget calls it.
\<close>

definition canOpen :: "notebook_id \<Rightarrow> SparkConnector \<Rightarrow> bool option" where
  "canOpen notebookId s =
     (case currentWidget s of None \<Rightarrow> None | Some w \<Rightarrow> Some (notebookId = w))"

definition has :: "notebook_id \<Rightarrow> SparkConnector \<Rightarrow> bool" where
  "has notebookId s = (statehandler s notebookId \<noteq> None)"

text \<open>
  \<^verbatim>\<open>open\<close> looks the entry up and returns it when its comm is disposed; the send of
  \<^verbatim>\<open>sparkconn-action-open\<close> that followed is commented out in the source, so the
  function returns nothing otherwise and changes nothing in either case. On an id with no
  entry the source would throw; the widget calls \<^verbatim>\<open>open\<close> after \<^verbatim>\<open>has\<close> only.
\<close>

definition "open" :: "notebook_id \<Rightarrow> SparkConnector \<Rightarrow> comm_id option \<times> SparkConnector" where
  "open notebookId s =
     (case statehandler s notebookId of
        None \<Rightarrow> (None, s)
      | Some c \<Rightarrow> if isDisposed (comm (comms s ! c)) then (Some c, s) else (None, s))"

definition new_NotebookStates :: NotebookStates where
  "new_NotebookStates =
     \<lparr>configuring = None, onConnect = [], connecting_data = None, connecting_log = [],
      connected_data = None, connected_log = [], connected_onReconfigure = 0,
      connectfailed_data = None, connectfailed_onReconfigure = 0\<rparr>"

text \<open>
  \<^verbatim>\<open>create\<close> makes a comm, opens it with the handshake message and returns the new
  \<^verbatim>\<open>NotebookComm\<close>; the registry is written later, by \<open>open_then\<close>, and cleared by
  \<open>onClose\<close>.
\<close>

definition create :: "notebook_id \<Rightarrow> SparkConnector \<Rightarrow> comm_id \<times> SparkConnector" where
  "create nb s =
     (let c = length (comms s);
          notebookComm =
            \<lparr>notebook = nb, states = new_NotebookStates,
             comm = \<lparr>isDisposed = False, open_done = False, creator = statehandler_id s\<rparr>\<rparr>
      in (c, s\<lparr>comms := comms s @ [notebookComm],
               outbox := outbox s @
                 [CommOpen c \<lparr>type = Some ''action'', action = ''sparkconn-action-open'',
                              action_data = None\<rparr>]\<rparr>))"

text \<open>
  The continuation of \<^verbatim>\<open>comm.open(...).done\<close> and the \<^verbatim>\<open>onClose\<close> handler write the map
  of the \<^verbatim>\<open>StateHandler\<close> that created the comm. After a reset that instance is no longer
  the widget's, and nothing reads its map again.
\<close>

definition open_then :: "comm_id \<Rightarrow> SparkConnector \<Rightarrow> SparkConnector" where
  "open_then c s =
     (if creator (comm (comms s ! c)) = statehandler_id s
      then s\<lparr>statehandler := (statehandler s)(notebook (comms s ! c) \<mapsto> c)\<rparr>
      else s)"

definition onClose :: "comm_id \<Rightarrow> SparkConnector \<Rightarrow> SparkConnector" where
  "onClose c s =
     (if creator (comm (comms s ! c)) = statehandler_id s
      then s\<lparr>statehandler := (statehandler s)(notebook (comms s ! c) := None)\<rparr>
      else s)"

definition close :: "notebook_id \<Rightarrow> SparkConnector \<Rightarrow> SparkConnector" where
  "close notebookId s = s\<lparr>statehandler := (statehandler s)(notebookId := None)\<rparr>"

definition clear :: "SparkConnector \<Rightarrow> SparkConnector" where
  "clear s = s\<lparr>statehandler := Map.empty\<rparr>"

subsection \<open>The widget (\<^verbatim>\<open>SparkConnector\<close>)\<close>

definition updateCurrent :: "IState \<Rightarrow> SparkConnector \<Rightarrow> SparkConnector" where
  "updateCurrent st s = s\<lparr>currentState := Some st, updates := Suc (updates s)\<rparr>"

definition getCurrentConfigFromNotebook :: "notebook_id \<Rightarrow> SparkConnector \<Rightarrow> SparkconnectMetadata" where
  "getCurrentConfigFromNotebook nb s =
     (case metadata s nb ''sparkconnect'' of
        Some currentConfig \<Rightarrow> currentConfig
      | None \<Rightarrow> \<lparr>bundled_options = [], list_of_options = []\<rparr>)"

definition setCurrentConfigToNotebook ::
    "notebook_id \<Rightarrow> SparkconnectMetadata \<Rightarrow> SparkConnector \<Rightarrow> SparkConnector" where
  "setCurrentConfigToNotebook nb cfg s =
     s\<lparr>metadata := (metadata s)(nb := (metadata s nb)(''sparkconnect'' \<mapsto> cfg))\<rparr>"

text \<open>A phase object is reached through the reference \<^verbatim>\<open>notebookComm.states\<close>.\<close>

definition with_states ::
    "comm_id \<Rightarrow> (NotebookStates \<Rightarrow> NotebookStates) \<Rightarrow> SparkConnector \<Rightarrow> SparkConnector" where
  "with_states c f s =
     s\<lparr>comms := (comms s)[c := (comms s ! c)\<lparr>states := f (states (comms s ! c))\<rparr>]\<rparr>"

text \<open>\<^verbatim>\<open>comm.send\<close> throws on a disposed comm (\<open>None\<close>).\<close>

definition send :: "comm_id \<Rightarrow> envelope \<Rightarrow> SparkConnector \<Rightarrow> SparkConnector option" where
  "send c e s =
     (if isDisposed (comm (comms s ! c)) then None
      else Some (s\<lparr>outbox := outbox s @ [CommSend c e]\<rparr>))"

text \<open>
  The three action handlers \<^verbatim>\<open>onCommMessage\<close> connects. An exception of a slot ends that
  slot only.
\<close>

definition onConnect_slot ::
    "comm_id \<Rightarrow> connect_message \<Rightarrow> string \<times> string \<times> string \<Rightarrow> SparkConnector \<Rightarrow> SparkConnector" where
  "onConnect_slot c connectMessage captured s =
     (let s1 = with_states c (\<lambda>st. st\<lparr>connecting_data := Some captured\<rparr>) s;
          s2 = updateCurrent (Connecting c) s1;
          s3 = setCurrentConfigToNotebook (notebook (comms s ! c)) (cm_metadata connectMessage) s2
      in case send c \<lparr>type = Some ''action'', action = ''sparkconn-action-connect'',
                       action_data = Some (cm_options connectMessage)\<rparr> s3 of
           None \<Rightarrow> s3
         | Some s4 \<Rightarrow> s4)"

definition connected_onReconfigure_slot :: "comm_id \<Rightarrow> SparkConnector \<Rightarrow> SparkConnector" where
  "connected_onReconfigure_slot c s =
     (let s1 = updateCurrent Loading s
      in case send c \<lparr>type = Some ''action'', action = ''sparkconn-action-disconnect'',
                       action_data = None\<rparr> s1 of
           None \<Rightarrow> s1
         | Some s2 \<Rightarrow> s2\<lparr>restarts := restarts s2 @ [notebook (comms s ! c)]\<rparr>)"

definition connectfailed_onReconfigure_slot :: "comm_id \<Rightarrow> SparkConnector \<Rightarrow> SparkConnector" where
  "connectfailed_onReconfigure_slot c s =
     (let s1 = updateCurrent Loading s
      in case send c \<lparr>type = None, action = ''sparkconn-action-disconnect'',
                       action_data = None\<rparr> s1 of
           None \<Rightarrow> s1
         | Some s2 \<Rightarrow> s2\<lparr>restarts := restarts s2 @ [notebook (comms s ! c)]\<rparr>)"

text \<open>
  \<^verbatim>\<open>onCommMessage\<close>, the switch on \<^verbatim>\<open>data.msgtype\<close>. Reading
  \<^verbatim>\<open>data.config.sparkhistoryserver\<close> throws when there is no \<^verbatim>\<open>config\<close>, before anything
  is changed; so does \<^verbatim>\<open>currentState.name()\<close> if no state were set.
\<close>

definition onCommMessage :: "comm_data \<Rightarrow> comm_id \<Rightarrow> SparkConnector \<Rightarrow> SparkConnector" where
  "onCommMessage data c s =
     (let nb = notebook (comms s ! c); title = title s nb in
      if msgtype data = ''sparkconn-action-open'' then
        (if page data = ''sparkconn-config'' then
           (let currentConfig = getCurrentConfigFromNotebook nb s;
                s1 = with_states c (\<lambda>st. st
                       \<lparr>configuring := Some
                          \<lparr>cfg_title = title, cfg_maxmemory = maxmemory data,
                           cfg_sparkversion = sparkversion data, cfg_cluster = cluster data,
                           cfg_currentConfig = currentConfig,
                           cfg_availableoptions = availableoptions data,
                           cfg_availablebundles = availablebundles data\<rparr>,
                        onConnect := onConnect st @ [(title, sparkversion data, cluster data)]\<rparr>) s
            in updateCurrent (Configuring c) s1)
         else s)
      else if msgtype data = ''sparkconn-connected'' then
        (case config data of
           None \<Rightarrow> s
         | Some sparkhistoryserver \<Rightarrow>
             (let s1 = with_states c (\<lambda>st. st\<lparr>connected_data := Some (title, sparkhistoryserver)\<rparr>) s;
                  s2 = s1\<lparr>restart_slots := (restart_slots s1)(nb := Suc (restart_slots s1 nb))\<rparr>;
                  s3 = with_states c
                         (\<lambda>st. st\<lparr>connected_onReconfigure := Suc (connected_onReconfigure st)\<rparr>) s2
              in updateCurrent (Connected c) s3))
      else if msgtype data = ''sparkconn-config'' then s
      else if msgtype data = ''sparkconn-connect-error'' then
        (let s1 = with_states c (\<lambda>st. st
                    \<lparr>connectfailed_data := Some (title, error data),
                     connectfailed_onReconfigure := Suc (connectfailed_onReconfigure st)\<rparr>) s
         in updateCurrent (ConnectFailed c) s1)
      else if msgtype data = ''sparkconn-action-follow-log'' then
        (case currentState s of
           None \<Rightarrow> s
         | Some st \<Rightarrow>
             if name st = ''connected'' then
               with_states c (\<lambda>st. st\<lparr>connected_log := connected_log st @ [msg data]\<rparr>) s
             else if name st = ''connecting'' then
               with_states c (\<lambda>st. st\<lparr>connecting_log := connecting_log st @ [msg data]\<rparr>) s
             else s)
      else s)"

text \<open>The \<^verbatim>\<open>onMsg\<close> handler of a comm: the focus filter, then \<^verbatim>\<open>onCommMessage\<close>.\<close>

definition onMsg :: "comm_id \<Rightarrow> comm_data \<Rightarrow> SparkConnector \<Rightarrow> SparkConnector" where
  "onMsg c data s =
     (if currentWidget s = None \<or> currentWidget s \<noteq> Some (notebook (comms s ! c)) then s
      else onCommMessage data c s)"

text \<open>The slot of \<^verbatim>\<open>kernel.connectionStatusChanged\<close> for the kernel of \<open>nb\<close>.\<close>

definition connectionStatusChanged_slot ::
    "notebook_id \<Rightarrow> ConnectionStatus \<Rightarrow> SparkConnector \<Rightarrow> SparkConnector" where
  "connectionStatusChanged_slot nb status s =
     (if status = connected then snd (create nb s)
      else if status = connecting then close nb (updateCurrent Loading s)
      else updateCurrent NotAttached s)"

text \<open>The continuation of \<^verbatim>\<open>nbPanel.sessionContext.ready\<close>.\<close>

definition ready_then :: "notebook_id \<Rightarrow> SparkConnector \<Rightarrow> SparkConnector" where
  "ready_then nb s =
     (let s1 = (if has nb s then snd (open nb s)
                else if connectionStatus s nb = connected then s\<lparr>reconnects := reconnects s @ [nb]\<rparr>
                else s)
      in s1\<lparr>status_slots := (status_slots s1)(nb := Suc (status_slots s1 nb))\<rparr>)"

text \<open>The slot of \<^verbatim>\<open>notebooks.currentChanged\<close>.\<close>

definition currentChanged_slot :: "notebook_id option \<Rightarrow> SparkConnector \<Rightarrow> SparkConnector" where
  "currentChanged_slot nbPanel s =
     (case nbPanel of
        None \<Rightarrow> updateCurrent NotAttached s
      | Some nb \<Rightarrow>
          (let s1 = updateCurrent Loading s
           in s1\<lparr>ready_waiting := (ready_waiting s1)(nb := Suc (ready_waiting s1 nb))\<rparr>))"

definition initStateHandling :: "SparkConnector \<Rightarrow> SparkConnector" where
  "initStateHandling s = s\<lparr>currentState := Some NotAttached, focus_slots := Suc (focus_slots s)\<rparr>"

text \<open>The slot of \<^verbatim>\<open>kernel.statusChanged\<close> and the continuation of its reconnect.\<close>

definition statusChanged_slot :: "notebook_id \<Rightarrow> KernelStatus \<Rightarrow> SparkConnector \<Rightarrow> SparkConnector" where
  "statusChanged_slot nb status s =
     (if status = restarting
      then s\<lparr>reconnects := reconnects s @ [nb],
             reset_waiting := (reset_waiting s)(nb := Suc (reset_waiting s nb))\<rparr>
      else s)"

definition reconnect_then :: "SparkConnector \<Rightarrow> SparkConnector" where
  "reconnect_then s =
     initStateHandling (s\<lparr>statehandler := Map.empty, statehandler_id := Suc (statehandler_id s)\<rparr>)"

definition constructor :: "host \<Rightarrow> SparkConnector" where
  "constructor h =
     initStateHandling
       \<lparr>currentWidget = h_currentWidget h, session_ready = h_ready h,
        connectionStatus = h_connectionStatus h, title = h_title h, metadata = h_metadata h,
        statehandler = Map.empty, statehandler_id = 0, comms = [], currentState = None,
        updates = 0, focus_slots = 0, ready_waiting = (\<lambda>nb. 0), status_slots = (\<lambda>nb. 0),
        restart_slots = (\<lambda>nb. 0), reset_waiting = (\<lambda>nb. 0), outbox = [], reconnects = [],
        restarts = []\<rparr>"

subsection \<open>Events\<close>

text \<open>
  What the host can deliver: a focus change, the session context of a notebook becoming
  ready, a change of the connection status or of the status of its kernel, the completion
  of a reconnect, the acknowledgement of a comm's open, its close by the kernel, a message
  on it, and the user's action in each of the three phases that have one.
\<close>

datatype event =
  CurrentChanged "notebook_id option"
  | SessionReady notebook_id
  | ConnectionStatusChanged notebook_id ConnectionStatus
  | StatusChanged notebook_id KernelStatus
  | ReconnectDone notebook_id
  | OpenDone comm_id
  | CommClosed comm_id
  | CommMsg comm_id comm_data
  | ConnectClicked comm_id connect_message
  | ConnectedReconfigure comm_id
  | ConnectFailedReconfigure comm_id

text \<open>Every continuation waiting on the ready promise of \<open>nb\<close> runs once.\<close>

definition run_ready :: "notebook_id \<Rightarrow> SparkConnector \<Rightarrow> SparkConnector" where
  "run_ready nb s =
     (ready_then nb ^^ ready_waiting s nb) (s\<lparr>ready_waiting := (ready_waiting s)(nb := 0)\<rparr>)"

text \<open>
  One event. A promise that has resolved runs a new continuation before the next event,
  so a focus change to a notebook whose session is ready runs \<open>ready_then\<close> at once. A
  comm that does not exist has no events; a promise resolves once; a disposed comm gets no
  message and no second close.
\<close>

fun step :: "event \<Rightarrow> SparkConnector \<Rightarrow> SparkConnector" where
  "step (CurrentChanged nbPanel) s =
     (let s1 = (currentChanged_slot nbPanel ^^ focus_slots s) (s\<lparr>currentWidget := nbPanel\<rparr>)
      in case nbPanel of
           None \<Rightarrow> s1
         | Some nb \<Rightarrow> if session_ready s1 nb then run_ready nb s1 else s1)"
| "step (SessionReady nb) s =
     (if session_ready s nb then s
      else run_ready nb (s\<lparr>session_ready := (session_ready s)(nb := True)\<rparr>))"
| "step (ConnectionStatusChanged nb status) s =
     (connectionStatusChanged_slot nb status ^^ status_slots s nb)
       (s\<lparr>connectionStatus := (connectionStatus s)(nb := status)\<rparr>)"
| "step (StatusChanged nb status) s = (statusChanged_slot nb status ^^ restart_slots s nb) s"
| "step (ReconnectDone nb) s =
     (reconnect_then ^^ reset_waiting s nb) (s\<lparr>reset_waiting := (reset_waiting s)(nb := 0)\<rparr>)"
| "step (OpenDone c) s =
     (if c < length (comms s) \<and> \<not> open_done (comm (comms s ! c))
      then open_then c
             (s\<lparr>comms := (comms s)[c := (comms s ! c)
                   \<lparr>comm := (comm (comms s ! c))\<lparr>open_done := True\<rparr>\<rparr>]\<rparr>)
      else s)"
| "step (CommClosed c) s =
     (if c < length (comms s) \<and> \<not> isDisposed (comm (comms s ! c))
      then (let s1 = onClose c s
            in s1\<lparr>comms := (comms s1)[c := (comms s1 ! c)
                    \<lparr>comm := (comm (comms s1 ! c))\<lparr>isDisposed := True\<rparr>\<rparr>]\<rparr>)
      else s)"
| "step (CommMsg c data) s =
     (if c < length (comms s) \<and> \<not> isDisposed (comm (comms s ! c)) then onMsg c data s else s)"
| "step (ConnectClicked c connectMessage) s =
     (if c < length (comms s)
      then fold (onConnect_slot c connectMessage) (onConnect (states (comms s ! c))) s
      else s)"
| "step (ConnectedReconfigure c) s =
     (if c < length (comms s)
      then (connected_onReconfigure_slot c ^^ connected_onReconfigure (states (comms s ! c))) s
      else s)"
| "step (ConnectFailedReconfigure c) s =
     (if c < length (comms s)
      then (connectfailed_onReconfigure_slot c ^^ connectfailed_onReconfigure (states (comms s ! c))) s
      else s)"

text \<open>A run of events, first to last.\<close>

definition run :: "event list \<Rightarrow> SparkConnector \<Rightarrow> SparkConnector" where
  "run es s = fold step es s"

text \<open>The displayed phase after each event of a run.\<close>

fun displayed_after :: "event list \<Rightarrow> SparkConnector \<Rightarrow> IState option list" where
  "displayed_after [] s = []"
| "displayed_after (e # es) s = currentState (step e s) # displayed_after es (step e s)"

subsection \<open>Concrete inputs\<close>

text \<open>
  A host with no notebook focused, where every session context is ready and every kernel
  connected, and no notebook has saved a configuration; a message of a given type; the
  argument of a connect action.
\<close>

definition example_host :: host where
  "example_host =
     \<lparr>h_currentWidget = None, h_ready = (\<lambda>nb. True), h_connectionStatus = (\<lambda>nb. connected),
      h_title = (\<lambda>nb. nb), h_metadata = (\<lambda>nb. Map.empty)\<rparr>"

definition example_data :: "string \<Rightarrow> comm_data" where
  "example_data t =
     \<lparr>msgtype = t, page = ''sparkconn-config'', maxmemory = ''8g'', sparkversion = ''3.5'',
      cluster = ''k8s'', availableoptions = ''{}'', availablebundles = ''{}'',
      config = Some ''http://h'', error = ''timeout'', msg = ''line''\<rparr>"

definition example_connect :: connect_message where
  "example_connect =
     \<lparr>cm_metadata = \<lparr>bundled_options = [''b''], list_of_options = []\<rparr>, cm_options = ''{}''\<rparr>"

subsection \<open>Invariants\<close>

text \<open>
  What holds of the registry in every state the widget reaches: an entry of notebook
  \<open>nb\<close> refers to a comm that exists, was created for \<open>nb\<close> and whose open has been
  acknowledged; and the widget listens to the connection status of every notebook it has
  a comm of.
\<close>

definition registry_inv :: "SparkConnector \<Rightarrow> bool" where
  "registry_inv s \<longleftrightarrow>
     (\<forall>nb c. statehandler s nb = Some c \<longrightarrow>
        c < length (comms s) \<and> notebook (comms s ! c) = nb \<and> open_done (comm (comms s ! c))) \<and>
     (\<forall>c < length (comms s). 0 < status_slots s (notebook (comms s ! c)))"

text \<open>
  How the display may move from one state to the next: every change of
  \<^verbatim>\<open>currentState\<close> comes with a call of \<^verbatim>\<open>this.update()\<close>, and a state that is set
  stays set.
\<close>

definition display_step :: "SparkConnector \<Rightarrow> SparkConnector \<Rightarrow> bool" where
  "display_step s s' \<longleftrightarrow>
     updates s \<le> updates s' \<and>
     (currentState s' \<noteq> currentState s \<longrightarrow> updates s < updates s') \<and>
     (currentState s \<noteq> None \<longrightarrow> currentState s' \<noteq> None)"

text \<open>
  A run in which no connect action fires on a comm of notebook \<open>D\<close>.
\<close>

fun no_connect_for :: "notebook_id \<Rightarrow> event list \<Rightarrow> SparkConnector \<Rightarrow> bool" where
  "no_connect_for D [] s = True"
| "no_connect_for D (e # es) s =
     ((case e of
         ConnectClicked c cm \<Rightarrow> \<not> (c < length (comms s) \<and> notebook (comms s ! c) = D)
       | _ \<Rightarrow> True) \<and>
      no_connect_for D es (step e s))"

text \<open>
  The handlers connected to the three action notifications of the phase objects of a comm:
  those of \<^verbatim>\<open>configuring.onConnect\<close>, and the number of those of
  \<^verbatim>\<open>connected.onReconfigure\<close> and of \<^verbatim>\<open>connectfailed.onReconfigure\<close>.
\<close>

definition subscriptions ::
    "comm_id \<Rightarrow> SparkConnector \<Rightarrow> (string \<times> string \<times> string) list \<times> nat \<times> nat" where
  "subscriptions c s =
     (onConnect (states (comms s ! c)), connected_onReconfigure (states (comms s ! c)),
      connectfailed_onReconfigure (states (comms s ! c)))"

section \<open>Properties\<close>

lemmas handler_defs =
  has_def open_def new_NotebookStates_def create_def open_then_def onClose_def close_def
  updateCurrent_def getCurrentConfigFromNotebook_def setCurrentConfigToNotebook_def
  with_states_def send_def onConnect_slot_def connected_onReconfigure_slot_def
  connectfailed_onReconfigure_slot_def onCommMessage_def onMsg_def
  connectionStatusChanged_slot_def ready_then_def currentChanged_slot_def
  initStateHandling_def statusChanged_slot_def reconnect_then_def constructor_def
  run_ready_def run_def Let_def

lemmas example_defs = example_host_def example_data_def example_connect_def

subsection \<open>The focus filter\<close>

text \<open>
  C7. A message on a comm of notebook \<open>D\<close> that arrives while no notebook is focused, or
  while another one is, is dropped: the state after the event is the state before it, so
  the displayed phase, the phase objects and the outbox are as they were, and nothing is
  kept for later.
\<close>

theorem unfocused_message_dropped:
  "c < length (comms s) \<Longrightarrow> currentWidget s \<noteq> Some (notebook (comms s ! c)) \<Longrightarrow>
     step (CommMsg c data) s = s"
  by (simp add: onMsg_def)

theorem unfocused_message_dropped_witness:
  "step (CommMsg 0 (example_data ''sparkconn-connected''))
     (run [CurrentChanged (Some ''D''), ConnectionStatusChanged ''D'' connected,
           CurrentChanged (Some ''E'')] (constructor example_host)) =
   run [CurrentChanged (Some ''D''), ConnectionStatusChanged ''D'' connected,
        CurrentChanged (Some ''E'')] (constructor example_host)"
proof -
  let ?s = "run [CurrentChanged (Some ''D''), ConnectionStatusChanged ''D'' connected,
                 CurrentChanged (Some ''E'')] (constructor example_host)"
  have c: "0 < length (comms ?s)"
    by (simp add: handler_defs example_defs)
  have w: "currentWidget ?s \<noteq> Some (notebook (comms ?s ! 0))"
    by (simp add: handler_defs example_defs)
  show ?thesis
    by (rule unfocused_message_dropped [OF c w])
qed

subsection \<open>The saved configuration\<close>

text \<open>
  C9. When the metadata of a notebook has no \<^verbatim>\<open>sparkconnect\<close> entry,
  \<^verbatim>\<open>getCurrentConfigFromNotebook\<close> returns the configuration with both lists empty, and
  that is the saved configuration \<^verbatim>\<open>configuring.init\<close> receives when a comm of the notebook
  handles the message that opens the configuration page.
\<close>

theorem config_default:
  assumes "metadata s nb ''sparkconnect'' = None"
  shows "getCurrentConfigFromNotebook nb s = \<lparr>bundled_options = [], list_of_options = []\<rparr> \<and>
    (c < length (comms s) \<and> notebook (comms s ! c) = nb \<and>
     msgtype data = ''sparkconn-action-open'' \<and> page data = ''sparkconn-config'' \<longrightarrow>
       map_option cfg_currentConfig (configuring (states (comms (onCommMessage data c s) ! c))) =
         Some \<lparr>bundled_options = [], list_of_options = []\<rparr>)"
  using assms
  by (simp add: getCurrentConfigFromNotebook_def onCommMessage_def with_states_def
      updateCurrent_def Let_def)

theorem config_default_witness:
  "getCurrentConfigFromNotebook ''D''
     (run [CurrentChanged (Some ''D''), ConnectionStatusChanged ''D'' connected]
        (constructor example_host)) = \<lparr>bundled_options = [], list_of_options = []\<rparr> \<and>
   map_option cfg_currentConfig (configuring (states (comms
     (onCommMessage (example_data ''sparkconn-action-open'') 0
        (run [CurrentChanged (Some ''D''), ConnectionStatusChanged ''D'' connected]
           (constructor example_host))) ! 0))) =
     Some \<lparr>bundled_options = [], list_of_options = []\<rparr>"
proof -
  let ?s = "run [CurrentChanged (Some ''D''), ConnectionStatusChanged ''D'' connected]
              (constructor example_host)"
  have m: "metadata ?s ''D'' ''sparkconnect'' = None"
    by (simp add: handler_defs example_defs)
  have c: "0 < length (comms ?s) \<and> notebook (comms ?s ! 0) = ''D'' \<and>
      msgtype (example_data ''sparkconn-action-open'') = ''sparkconn-action-open'' \<and>
      page (example_data ''sparkconn-action-open'') = ''sparkconn-config''"
    by (simp add: handler_defs example_defs)
  from config_default [OF m, of 0 "example_data ''sparkconn-action-open''"] c
  show ?thesis by blast
qed

subsection \<open>The order of the displayed phases\<close>

text \<open>
  C4. From the state the constructor leaves, the events focus on \<open>D\<close>, status connecting,
  status connected, the message that opens the configuration page (on the comm the
  status change created, the first one) and the connect action display Loading, Loading,
  Loading, Configuring and Connecting, in that order. The session context of \<open>D\<close> is
  ready at the focus change, or becomes ready right after it, which displays Loading
  still.
\<close>

theorem ordering:
  assumes "msgtype data = ''sparkconn-action-open''" and "page data = ''sparkconn-config''"
  shows "(h_ready h D \<longrightarrow>
      displayed_after [CurrentChanged (Some D), ConnectionStatusChanged D connecting,
        ConnectionStatusChanged D connected, CommMsg 0 data, ConnectClicked 0 cm] (constructor h) =
      [Some Loading, Some Loading, Some Loading, Some (Configuring 0), Some (Connecting 0)]) \<and>
    (\<not> h_ready h D \<longrightarrow>
      displayed_after [CurrentChanged (Some D), SessionReady D, ConnectionStatusChanged D connecting,
        ConnectionStatusChanged D connected, CommMsg 0 data, ConnectClicked 0 cm] (constructor h) =
      [Some Loading, Some Loading, Some Loading, Some Loading, Some (Configuring 0),
       Some (Connecting 0)])"
  using assms by (simp add: handler_defs)

theorem ordering_witness:
  "displayed_after [CurrentChanged (Some ''D''), ConnectionStatusChanged ''D'' connecting,
     ConnectionStatusChanged ''D'' connected, CommMsg 0 (example_data ''sparkconn-action-open''),
     ConnectClicked 0 example_connect] (constructor example_host) =
   [Some Loading, Some Loading, Some Loading, Some (Configuring 0), Some (Connecting 0)]"
proof -
  have t: "msgtype (example_data ''sparkconn-action-open'') = ''sparkconn-action-open''"
    and p: "page (example_data ''sparkconn-action-open'') = ''sparkconn-config''"
    and r: "h_ready example_host ''D''"
    by (simp_all add: example_defs)
  from ordering [OF t p, of example_host "''D''" example_connect] r
  show ?thesis by blast
qed

subsection \<open>Outbound messages\<close>

text \<open>
  C5. The message the reconfigure action of ConnectFailed sends has an action name and no
  \<^verbatim>\<open>type\<close> field: after a focus on \<open>D\<close>, a connected status, a connect-error message
  and the reconfigure action, the outbox holds the handshake and that message.
\<close>

theorem connectfailed_disconnect_untyped:
  "outbox (run [CurrentChanged (Some ''D''), ConnectionStatusChanged ''D'' connected,
       CommMsg 0 (example_data ''sparkconn-connect-error''), ConnectFailedReconfigure 0]
     (constructor example_host)) =
   [CommOpen 0 \<lparr>type = Some ''action'', action = ''sparkconn-action-open'', action_data = None\<rparr>,
    CommSend 0 \<lparr>type = None, action = ''sparkconn-action-disconnect'', action_data = None\<rparr>]"
  by (simp add: handler_defs example_defs)

subsection \<open>Slots that run several times\<close>

lemma funpow_preserves:
  assumes "\<And>s. P s \<Longrightarrow> P (f s)" and "P s"
  shows "P ((f ^^ n) s)"
  using assms by (induction n) simp_all

lemma fold_preserves:
  assumes "\<And>x s. P s \<Longrightarrow> P (f x s)" and "P s"
  shows "P (fold f xs s)"
  using assms by (induction xs arbitrary: s) simp_all

subsection \<open>What the helpers leave alone\<close>

lemma with_states_fields [simp]:
  "statehandler (with_states c f s) = statehandler s"
  "status_slots (with_states c f s) = status_slots s"
  "length (comms (with_states c f s)) = length (comms s)"
  "metadata (with_states c f s) = metadata s"
  "currentState (with_states c f s) = currentState s"
  "updates (with_states c f s) = updates s"
  "outbox (with_states c f s) = outbox s"
  "currentWidget (with_states c f s) = currentWidget s"
  by (simp_all add: with_states_def)

lemma with_states_notebook [simp]:
  "notebook (comms (with_states c f s) ! c') = notebook (comms s ! c')"
  by (cases "c < length (comms s)"; cases "c = c'") (simp_all add: with_states_def list_update_beyond)

lemma with_states_comm [simp]:
  "comm (comms (with_states c f s) ! c') = comm (comms s ! c')"
  by (cases "c < length (comms s)"; cases "c = c'") (simp_all add: with_states_def list_update_beyond)

lemma updateCurrent_fields [simp]:
  "statehandler (updateCurrent st s) = statehandler s"
  "status_slots (updateCurrent st s) = status_slots s"
  "comms (updateCurrent st s) = comms s"
  "metadata (updateCurrent st s) = metadata s"
  "outbox (updateCurrent st s) = outbox s"
  "currentState (updateCurrent st s) = Some st"
  "updates (updateCurrent st s) = Suc (updates s)"
  "currentWidget (updateCurrent st s) = currentWidget s"
  by (simp_all add: updateCurrent_def)

subsection \<open>The registry invariant holds in every reachable state\<close>

lemma registry_inv_with_states [simp]: "registry_inv (with_states c f s) = registry_inv s"
  by (simp add: registry_inv_def)

lemma registry_inv_updateCurrent [simp]: "registry_inv (updateCurrent st s) = registry_inv s"
  by (simp add: registry_inv_def)

lemma registry_inv_constructor: "registry_inv (constructor h)"
  by (simp add: registry_inv_def constructor_def initStateHandling_def)

lemma registry_inv_currentChanged_slot:
  "registry_inv s \<Longrightarrow> registry_inv (currentChanged_slot nbPanel s)"
  by (cases nbPanel) (simp_all add: currentChanged_slot_def Let_def, simp add: registry_inv_def)

lemma registry_inv_ready_then: "registry_inv s \<Longrightarrow> registry_inv (ready_then nb s)"
  by (auto simp: registry_inv_def ready_then_def open_def Let_def split: option.splits)

lemma registry_inv_run_ready: "registry_inv s \<Longrightarrow> registry_inv (run_ready nb s)"
  unfolding run_ready_def
  by (rule funpow_preserves [where P = registry_inv])
     (simp_all add: registry_inv_ready_then, simp add: registry_inv_def)

lemma registry_inv_status_slot:
  "registry_inv s \<and> 0 < status_slots s nb \<Longrightarrow>
   registry_inv (connectionStatusChanged_slot nb status s) \<and>
   0 < status_slots (connectionStatusChanged_slot nb status s) nb"
proof -
  assume a: "registry_inv s \<and> 0 < status_slots s nb"
  then have r: "\<And>nb c. statehandler s nb = Some c \<Longrightarrow>
      c < length (comms s) \<and> notebook (comms s ! c) = nb \<and> open_done (comm (comms s ! c))"
    and l: "\<And>c. c < length (comms s) \<Longrightarrow> 0 < status_slots s (notebook (comms s ! c))"
    and n: "0 < status_slots s nb"
    by (simp_all add: registry_inv_def)
  show ?thesis
  proof (cases status)
    case connected
    then show ?thesis
      using r l n
      by (simp add: registry_inv_def connectionStatusChanged_slot_def create_def Let_def
          nth_append less_Suc_eq)
  next
    case connecting
    then show ?thesis
      using r l n
      by (simp add: registry_inv_def connectionStatusChanged_slot_def close_def updateCurrent_def)
  next
    case disconnected
    then show ?thesis
      using a by (simp add: connectionStatusChanged_slot_def)
  qed
qed

lemma registry_inv_statusChanged_slot:
  "registry_inv s \<Longrightarrow> registry_inv (statusChanged_slot nb status s)"
  by (simp add: registry_inv_def statusChanged_slot_def)

lemma registry_inv_reconnect_then: "registry_inv s \<Longrightarrow> registry_inv (reconnect_then s)"
  by (simp add: registry_inv_def reconnect_then_def initStateHandling_def)

lemma registry_inv_onCommMessage: "registry_inv s \<Longrightarrow> registry_inv (onCommMessage data c s)"
  by (simp add: onCommMessage_def Let_def registry_inv_def split: option.splits)

lemma registry_inv_onConnect_slot:
  "registry_inv s \<Longrightarrow> registry_inv (onConnect_slot c cm x s)"
  by (simp add: onConnect_slot_def Let_def send_def setCurrentConfigToNotebook_def registry_inv_def)

lemma registry_inv_connected_slot:
  "registry_inv s \<Longrightarrow> registry_inv (connected_onReconfigure_slot c s)"
  by (simp add: connected_onReconfigure_slot_def Let_def send_def registry_inv_def)

lemma registry_inv_connectfailed_slot:
  "registry_inv s \<Longrightarrow> registry_inv (connectfailed_onReconfigure_slot c s)"
  by (simp add: connectfailed_onReconfigure_slot_def Let_def send_def registry_inv_def)

lemma registry_inv_OpenDone: "registry_inv s \<Longrightarrow> registry_inv (step (OpenDone c) s)"
  by (auto simp: registry_inv_def open_then_def nth_list_update)

lemma registry_inv_CommClosed: "registry_inv s \<Longrightarrow> registry_inv (step (CommClosed c) s)"
  by (auto simp: registry_inv_def onClose_def Let_def nth_list_update)

lemma registry_inv_step: "registry_inv s \<Longrightarrow> registry_inv (step e s)"
proof (cases e)
  case (CurrentChanged nbPanel)
  assume inv: "registry_inv s"
  have "registry_inv (s\<lparr>currentWidget := nbPanel\<rparr>)"
    using inv by (simp add: registry_inv_def)
  then have "registry_inv ((currentChanged_slot nbPanel ^^ focus_slots s) (s\<lparr>currentWidget := nbPanel\<rparr>))"
    by (rule funpow_preserves [where P = registry_inv, rotated]) (rule registry_inv_currentChanged_slot)
  then show ?thesis
    using CurrentChanged by (cases nbPanel) (simp_all add: Let_def registry_inv_run_ready)
next
  case (SessionReady nb)
  assume inv: "registry_inv s"
  have "registry_inv (s\<lparr>session_ready := (session_ready s)(nb := True)\<rparr>)"
    using inv by (simp add: registry_inv_def)
  then show ?thesis
    using SessionReady inv by (simp add: registry_inv_run_ready)
next
  case (ConnectionStatusChanged nb status)
  assume inv: "registry_inv s"
  let ?s = "s\<lparr>connectionStatus := (connectionStatus s)(nb := status)\<rparr>"
  show ?thesis
  proof (cases "status_slots s nb")
    case 0
    then show ?thesis using ConnectionStatusChanged inv by (simp add: registry_inv_def)
  next
    case (Suc n)
    then have "registry_inv ?s \<and> 0 < status_slots ?s nb"
      using inv by (simp add: registry_inv_def)
    then have "registry_inv ((connectionStatusChanged_slot nb status ^^ status_slots s nb) ?s) \<and>
        0 < status_slots ((connectionStatusChanged_slot nb status ^^ status_slots s nb) ?s) nb"
      by (rule funpow_preserves [where P = "\<lambda>s. registry_inv s \<and> 0 < status_slots s nb", rotated])
         (rule registry_inv_status_slot)
    then show ?thesis using ConnectionStatusChanged by simp
  qed
next
  case (StatusChanged nb status)
  assume "registry_inv s"
  then have "registry_inv ((statusChanged_slot nb status ^^ restart_slots s nb) s)"
    by (rule funpow_preserves [where P = registry_inv, rotated]) (rule registry_inv_statusChanged_slot)
  then show ?thesis using StatusChanged by simp
next
  case (ReconnectDone nb)
  assume "registry_inv s"
  then have "registry_inv (s\<lparr>reset_waiting := (reset_waiting s)(nb := 0)\<rparr>)"
    by (simp add: registry_inv_def)
  then have "registry_inv ((reconnect_then ^^ reset_waiting s nb)
      (s\<lparr>reset_waiting := (reset_waiting s)(nb := 0)\<rparr>))"
    by (rule funpow_preserves [where P = registry_inv, rotated]) (rule registry_inv_reconnect_then)
  then show ?thesis using ReconnectDone by simp
next
  case (OpenDone c)
  assume "registry_inv s"
  then show ?thesis using OpenDone registry_inv_OpenDone by blast
next
  case (CommClosed c)
  assume "registry_inv s"
  then show ?thesis using CommClosed registry_inv_CommClosed by blast
next
  case (CommMsg c data)
  assume "registry_inv s"
  then show ?thesis using CommMsg by (simp add: onMsg_def registry_inv_onCommMessage)
next
  case (ConnectClicked c cm)
  assume "registry_inv s"
  then have "registry_inv (fold (onConnect_slot c cm) (onConnect (states (comms s ! c))) s)"
    by (rule fold_preserves [where P = registry_inv, rotated]) (rule registry_inv_onConnect_slot)
  then show ?thesis using ConnectClicked \<open>registry_inv s\<close> by simp
next
  case (ConnectedReconfigure c)
  assume "registry_inv s"
  then have "registry_inv ((connected_onReconfigure_slot c ^^ connected_onReconfigure (states (comms s ! c))) s)"
    by (rule funpow_preserves [where P = registry_inv, rotated]) (rule registry_inv_connected_slot)
  then show ?thesis using ConnectedReconfigure \<open>registry_inv s\<close> by simp
next
  case (ConnectFailedReconfigure c)
  assume "registry_inv s"
  then have "registry_inv ((connectfailed_onReconfigure_slot c ^^ connectfailed_onReconfigure (states (comms s ! c))) s)"
    by (rule funpow_preserves [where P = registry_inv, rotated]) (rule registry_inv_connectfailed_slot)
  then show ?thesis using ConnectFailedReconfigure \<open>registry_inv s\<close> by simp
qed

lemma registry_inv_run: "registry_inv s \<Longrightarrow> registry_inv (run es s)"
  unfolding run_def by (induction es arbitrary: s) (simp_all add: registry_inv_step)

subsection \<open>The registry through one event\<close>

lemma connecting_slot:
  "connectionStatusChanged_slot nb connecting s =
     s\<lparr>currentState := Some Loading, updates := Suc (updates s),
       statehandler := (statehandler s)(nb := None)\<rparr>"
  apply (simp add: connectionStatusChanged_slot_def close_def updateCurrent_def)
  done

lemma connecting_slots:
  "(connectionStatusChanged_slot nb connecting ^^ Suc n) s =
     s\<lparr>currentState := Some Loading, updates := updates s + Suc n,
       statehandler := (statehandler s)(nb := None)\<rparr>"
proof (induction n)
  case 0
  show ?case by (simp only: funpow.simps o_apply id_apply connecting_slot add_Suc_right add_0_right)
next
  case (Suc n)
  have "(connectionStatusChanged_slot nb connecting ^^ Suc (Suc n)) s =
      connectionStatusChanged_slot nb connecting
        ((connectionStatusChanged_slot nb connecting ^^ Suc n) s)"
    by simp
  also have "\<dots> = s\<lparr>currentState := Some Loading, updates := updates s + Suc (Suc n),
       statehandler := (statehandler s)(nb := None)\<rparr>"
    by (simp only: Suc.IH connecting_slot) (rule SparkConnector.equality; simp)
  finally show ?case .
qed

lemma funpow_field:
  assumes "\<And>s. g (f s) = g s"
  shows "g ((f ^^ n) s) = g s"
  by (induction n) (simp_all add: assms)

lemma fold_field:
  assumes "\<And>x s. g (f x s) = g s"
  shows "g (fold f xs s) = g s"
  by (induction xs arbitrary: s) (simp_all add: assms)

lemma statehandler_currentChanged_slot [simp]:
  "statehandler (currentChanged_slot nbPanel s) = statehandler s"
  by (cases nbPanel) (simp_all add: currentChanged_slot_def Let_def)

lemma statehandler_ready_then [simp]: "statehandler (ready_then nb s) = statehandler s"
  by (simp add: ready_then_def open_def Let_def split: option.splits)

lemma statehandler_run_ready [simp]: "statehandler (run_ready nb s) = statehandler s"
  by (simp add: run_ready_def funpow_field [where g = statehandler])

lemma statehandler_statusChanged_slot [simp]:
  "statehandler (statusChanged_slot nb status s) = statehandler s"
  by (simp add: statusChanged_slot_def)

lemma statehandler_onCommMessage [simp]: "statehandler (onCommMessage data c s) = statehandler s"
  by (simp add: onCommMessage_def Let_def split: option.splits)

lemma statehandler_onConnect_slot [simp]:
  "statehandler (onConnect_slot c cm x s) = statehandler s"
  by (simp add: onConnect_slot_def Let_def send_def setCurrentConfigToNotebook_def)

lemma statehandler_connected_slot [simp]:
  "statehandler (connected_onReconfigure_slot c s) = statehandler s"
  by (simp add: connected_onReconfigure_slot_def Let_def send_def)

lemma statehandler_connectfailed_slot [simp]:
  "statehandler (connectfailed_onReconfigure_slot c s) = statehandler s"
  by (simp add: connectfailed_onReconfigure_slot_def Let_def send_def)

lemma statehandler_create_slots:
  "statehandler ((connectionStatusChanged_slot nb connected ^^ n) s) = statehandler s"
  by (rule funpow_field) (simp add: connectionStatusChanged_slot_def create_def Let_def)

lemma statehandler_other_slots:
  "statehandler ((connectionStatusChanged_slot nb disconnected ^^ n) s) = statehandler s"
  by (rule funpow_field) (simp add: connectionStatusChanged_slot_def)

lemma statehandler_reset:
  "statehandler ((reconnect_then ^^ Suc n) s) = Map.empty"
  by (simp add: reconnect_then_def initStateHandling_def)

lemma statehandler_step:
  "statehandler (step e s) =
     (case e of
        OpenDone c \<Rightarrow>
          if c < length (comms s) \<and> \<not> open_done (comm (comms s ! c)) \<and>
             creator (comm (comms s ! c)) = statehandler_id s
          then (statehandler s)(notebook (comms s ! c) \<mapsto> c) else statehandler s
      | CommClosed c \<Rightarrow>
          if c < length (comms s) \<and> \<not> isDisposed (comm (comms s ! c)) \<and>
             creator (comm (comms s ! c)) = statehandler_id s
          then (statehandler s)(notebook (comms s ! c) := None) else statehandler s
      | ConnectionStatusChanged nb status \<Rightarrow>
          if status = connecting \<and> 0 < status_slots s nb
          then (statehandler s)(nb := None) else statehandler s
      | ReconnectDone nb \<Rightarrow> if 0 < reset_waiting s nb then Map.empty else statehandler s
      | _ \<Rightarrow> statehandler s)"
proof (cases e)
  case (CurrentChanged nbPanel)
  then show ?thesis
    by (cases nbPanel) (simp_all add: Let_def funpow_field [where g = statehandler])
next
  case (SessionReady nb)
  then show ?thesis by simp
next
  case (ConnectionStatusChanged nb status)
  show ?thesis
  proof (cases "status_slots s nb")
    case 0
    then show ?thesis using ConnectionStatusChanged by simp
  next
    case (Suc n)
    then show ?thesis
      using ConnectionStatusChanged
      by (cases status)
         (simp_all only: step.simps event.case connecting_slots statehandler_create_slots
            statehandler_other_slots, simp_all)
  qed
next
  case (StatusChanged nb status)
  then show ?thesis by (simp add: funpow_field [where g = statehandler])
next
  case (ReconnectDone nb)
  then show ?thesis
    by (cases "reset_waiting s nb") (simp_all only: step.simps event.case statehandler_reset, simp_all)
next
  case (OpenDone c)
  then show ?thesis by (simp add: open_then_def)
next
  case (CommClosed c)
  then show ?thesis by (simp add: onClose_def Let_def)
next
  case (CommMsg c data)
  then show ?thesis by (simp add: onMsg_def)
next
  case (ConnectClicked c cm)
  then show ?thesis by (simp add: fold_field [where g = statehandler])
next
  case (ConnectedReconfigure c)
  then show ?thesis by (simp add: funpow_field [where g = statehandler])
next
  case (ConnectFailedReconfigure c)
  then show ?thesis by (simp add: funpow_field [where g = statehandler])
qed

subsection \<open>The registry and the open channels\<close>

text \<open>
  C1, as the code has it. In every state the widget reaches, an entry of notebook \<open>D\<close>
  refers to a comm that was created for \<open>D\<close> and whose open has been acknowledged. One
  event changes the registry in four cases only. The acknowledgement of the open of a
  comm registers that comm under its notebook, and the close of a comm that is not
  disposed removes the entry of its notebook, both when the comm was created by the
  current \<^verbatim>\<open>StateHandler\<close>: the callbacks of a comm write the map of the instance that
  created it, which after a reset is no longer the registry of the widget. A connecting
  status of a notebook whose connection status the widget listens to removes the entry
  of that notebook. The completion of a reconnect with a reset waiting empties the
  registry. Neither direction of the claim's equivalence is part of this: a comm that is
  open may have no entry, and the comm of an entry may be disposed.
\<close>

theorem registry_entry_lifecycle:
  assumes "s = run es (constructor h)"
  shows "(statehandler s D = Some c \<longrightarrow>
       c < length (comms s) \<and> notebook (comms s ! c) = D \<and> open_done (comm (comms s ! c))) \<and>
    statehandler (step e s) =
     (case e of
        OpenDone c \<Rightarrow>
          if c < length (comms s) \<and> \<not> open_done (comm (comms s ! c)) \<and>
             creator (comm (comms s ! c)) = statehandler_id s
          then (statehandler s)(notebook (comms s ! c) \<mapsto> c) else statehandler s
      | CommClosed c \<Rightarrow>
          if c < length (comms s) \<and> \<not> isDisposed (comm (comms s ! c)) \<and>
             creator (comm (comms s ! c)) = statehandler_id s
          then (statehandler s)(notebook (comms s ! c) := None) else statehandler s
      | ConnectionStatusChanged nb status \<Rightarrow>
          if status = connecting \<and> 0 < status_slots s nb
          then (statehandler s)(nb := None) else statehandler s
      | ReconnectDone nb \<Rightarrow> if 0 < reset_waiting s nb then Map.empty else statehandler s
      | _ \<Rightarrow> statehandler s)"
proof -
  have "registry_inv s"
    unfolding assms by (rule registry_inv_run) (rule registry_inv_constructor)
  then have "statehandler s D = Some c \<longrightarrow>
       c < length (comms s) \<and> notebook (comms s ! c) = D \<and> open_done (comm (comms s ! c))"
    by (simp add: registry_inv_def)
  then show ?thesis
    by (simp only: statehandler_step)
qed

theorem registry_entry_lifecycle_witness:
  "statehandler (run [CurrentChanged (Some ''D''), ConnectionStatusChanged ''D'' connected,
       OpenDone 0] (constructor example_host)) ''D'' = Some 0 \<and>
   0 < length (comms (run [CurrentChanged (Some ''D''), ConnectionStatusChanged ''D'' connected,
       OpenDone 0] (constructor example_host))) \<and>
   notebook (comms (run [CurrentChanged (Some ''D''), ConnectionStatusChanged ''D'' connected,
       OpenDone 0] (constructor example_host)) ! 0) = ''D'' \<and>
   open_done (comm (comms (run [CurrentChanged (Some ''D''),
       ConnectionStatusChanged ''D'' connected, OpenDone 0] (constructor example_host)) ! 0)) \<and>
   statehandler (step (ConnectionStatusChanged ''D'' connecting)
       (run [CurrentChanged (Some ''D''), ConnectionStatusChanged ''D'' connected,
         OpenDone 0] (constructor example_host))) ''D'' = None \<and>
   statehandler (step (OpenDone 0)
       (run [CurrentChanged (Some ''D''), ConnectionStatusChanged ''D'' connected,
         CommMsg 0 (example_data ''sparkconn-connected''), StatusChanged ''D'' restarting,
         ReconnectDone ''D''] (constructor example_host))) ''D'' = None"
proof -
  let ?s = "run [CurrentChanged (Some ''D''), ConnectionStatusChanged ''D'' connected,
       OpenDone 0] (constructor example_host)"
  let ?r = "run [CurrentChanged (Some ''D''), ConnectionStatusChanged ''D'' connected,
         CommMsg 0 (example_data ''sparkconn-connected''), StatusChanged ''D'' restarting,
         ReconnectDone ''D''] (constructor example_host)"
  have e: "statehandler ?s ''D'' = Some 0" and p: "0 < status_slots ?s ''D''"
    by (simp_all add: handler_defs example_defs)
  from registry_entry_lifecycle [where h = example_host and D = "''D''" and c = 0
      and es = "[CurrentChanged (Some ''D''), ConnectionStatusChanged ''D'' connected, OpenDone 0]"
      and e = "ConnectionStatusChanged ''D'' connecting", OF refl] e p
  have a: "statehandler ?s ''D'' = Some 0 \<and> 0 < length (comms ?s) \<and>
      notebook (comms ?s ! 0) = ''D'' \<and> open_done (comm (comms ?s ! 0)) \<and>
      statehandler (step (ConnectionStatusChanged ''D'' connecting) ?s) ''D'' = None"
    by simp
  have f: "creator (comm (comms ?r ! 0)) \<noteq> statehandler_id ?r"
    and g: "statehandler ?r ''D'' = None"
    and k: "0 < length (comms ?r) \<and> \<not> open_done (comm (comms ?r ! 0))"
    by (simp_all add: handler_defs example_defs)
  from registry_entry_lifecycle [where h = example_host and D = "''D''" and c = 0
      and es = "[CurrentChanged (Some ''D''), ConnectionStatusChanged ''D'' connected,
         CommMsg 0 (example_data ''sparkconn-connected''), StatusChanged ''D'' restarting,
         ReconnectDone ''D'']"
      and e = "OpenDone 0", OF refl] f g
  have b: "statehandler (step (OpenDone 0) ?r) ''D'' = None"
    by simp
  from a b show ?thesis by blast
qed

text \<open>
  The claim as stated fails in both directions. After focus, connected status,
  acknowledgement and connecting status, the registry has no entry for \<open>D\<close> while the comm
  of \<open>D\<close> is acknowledged and not disposed: \<^verbatim>\<open>close\<close> removes the entry and leaves the comm
  alone. And when the kernel closes the comm before the open is acknowledged, the
  acknowledgement registers an entry for \<open>D\<close> whose comm is disposed.
\<close>

theorem registry_and_open_channels_differ:
  "has ''D'' (run [CurrentChanged (Some ''D''), ConnectionStatusChanged ''D'' connected,
                  OpenDone 0] (constructor example_host)) \<and>
   \<not> has ''D'' (run [CurrentChanged (Some ''D''), ConnectionStatusChanged ''D'' connected,
                    OpenDone 0, ConnectionStatusChanged ''D'' connecting] (constructor example_host)) \<and>
   comms (run [CurrentChanged (Some ''D''), ConnectionStatusChanged ''D'' connected,
               OpenDone 0, ConnectionStatusChanged ''D'' connecting] (constructor example_host)) =
     [\<lparr>notebook = ''D'', states = new_NotebookStates,
       comm = \<lparr>isDisposed = False, open_done = True, creator = 0\<rparr>\<rparr>] \<and>
   has ''D'' (run [CurrentChanged (Some ''D''), ConnectionStatusChanged ''D'' connected,
                  CommClosed 0, OpenDone 0] (constructor example_host)) \<and>
   comms (run [CurrentChanged (Some ''D''), ConnectionStatusChanged ''D'' connected,
               CommClosed 0, OpenDone 0] (constructor example_host)) =
     [\<lparr>notebook = ''D'', states = new_NotebookStates,
       comm = \<lparr>isDisposed = True, open_done = True, creator = 0\<rparr>\<rparr>]"
  by (simp add: handler_defs example_defs)

subsection \<open>A connecting status while a session is registered\<close>

text \<open>
  C6. In a state the widget reaches where a session of \<open>D\<close> is registered, the status
  change of \<open>D\<close> to connecting displays Loading and removes the entry of \<open>D\<close>; besides
  the status the host reports and the count of the update requests, nothing else
  changes: the outbox and the comms are as before, so no message is sent on the channel.
\<close>

theorem connecting_removes_session:
  assumes "s = run es (constructor h)" and "has D s"
  shows "step (ConnectionStatusChanged D connecting) s =
      s\<lparr>connectionStatus := (connectionStatus s)(D := connecting),
        currentState := Some Loading, updates := updates s + status_slots s D,
        statehandler := (statehandler s)(D := None)\<rparr> \<and>
    0 < status_slots s D \<and>
    outbox (step (ConnectionStatusChanged D connecting) s) = outbox s \<and>
    comms (step (ConnectionStatusChanged D connecting) s) = comms s \<and>
    currentState (step (ConnectionStatusChanged D connecting) s) = Some Loading \<and>
    \<not> has D (step (ConnectionStatusChanged D connecting) s)"
proof -
  have inv: "registry_inv s"
    unfolding assms(1) by (rule registry_inv_run) (rule registry_inv_constructor)
  from assms(2) obtain c where c: "statehandler s D = Some c"
    by (auto simp: has_def)
  with inv have "c < length (comms s)" and "notebook (comms s ! c) = D"
    by (simp_all add: registry_inv_def)
  with inv have pos: "0 < status_slots s D"
    by (auto simp: registry_inv_def)
  then obtain n where n: "status_slots s D = Suc n"
    by (cases "status_slots s D") simp_all
  have eq: "step (ConnectionStatusChanged D connecting) s =
      s\<lparr>connectionStatus := (connectionStatus s)(D := connecting),
        currentState := Some Loading, updates := updates s + status_slots s D,
        statehandler := (statehandler s)(D := None)\<rparr>"
    by (simp only: step.simps n connecting_slots) (rule SparkConnector.equality; simp)
  have "0 < status_slots s D \<and>
    outbox (s\<lparr>connectionStatus := (connectionStatus s)(D := connecting),
        currentState := Some Loading, updates := updates s + status_slots s D,
        statehandler := (statehandler s)(D := None)\<rparr>) = outbox s \<and>
    comms (s\<lparr>connectionStatus := (connectionStatus s)(D := connecting),
        currentState := Some Loading, updates := updates s + status_slots s D,
        statehandler := (statehandler s)(D := None)\<rparr>) = comms s \<and>
    currentState (s\<lparr>connectionStatus := (connectionStatus s)(D := connecting),
        currentState := Some Loading, updates := updates s + status_slots s D,
        statehandler := (statehandler s)(D := None)\<rparr>) = Some Loading \<and>
    \<not> has D (s\<lparr>connectionStatus := (connectionStatus s)(D := connecting),
        currentState := Some Loading, updates := updates s + status_slots s D,
        statehandler := (statehandler s)(D := None)\<rparr>)"
    by (simp add: pos has_def)
  then show ?thesis
    by (simp only: eq) simp
qed

theorem connecting_removes_session_witness:
  "has ''D'' (run [CurrentChanged (Some ''D''), ConnectionStatusChanged ''D'' connected,
       OpenDone 0] (constructor example_host)) \<and>
   outbox (step (ConnectionStatusChanged ''D'' connecting)
     (run [CurrentChanged (Some ''D''), ConnectionStatusChanged ''D'' connected,
       OpenDone 0] (constructor example_host))) =
   outbox (run [CurrentChanged (Some ''D''), ConnectionStatusChanged ''D'' connected,
       OpenDone 0] (constructor example_host)) \<and>
   currentState (step (ConnectionStatusChanged ''D'' connecting)
     (run [CurrentChanged (Some ''D''), ConnectionStatusChanged ''D'' connected,
       OpenDone 0] (constructor example_host))) = Some Loading \<and>
   \<not> has ''D'' (step (ConnectionStatusChanged ''D'' connecting)
     (run [CurrentChanged (Some ''D''), ConnectionStatusChanged ''D'' connected,
       OpenDone 0] (constructor example_host)))"
proof -
  have h: "has ''D'' (run [CurrentChanged (Some ''D''), ConnectionStatusChanged ''D'' connected,
       OpenDone 0] (constructor example_host))"
    by (simp add: handler_defs example_defs)
  from connecting_removes_session [OF refl h] h
  show ?thesis by blast
qed

subsection \<open>The continuation of the ready promise\<close>

text \<open>
  What the continuation does. With a session of \<open>D\<close> registered it calls \<^verbatim>\<open>open\<close>, which
  changes nothing, and connects its slot to the connection status of the kernel. With no
  session registered and the connection status connected it requests a reconnect as
  well; with any other status it connects the slot only. The continuation runs when the
  session becomes ready after the focus change, and at once when the session is ready at
  the focus change.
\<close>

lemma ready_continuation:
  "(has D s \<longrightarrow>
      ready_then D s = s\<lparr>status_slots := (status_slots s)(D := Suc (status_slots s D))\<rparr>) \<and>
   (\<not> has D s \<and> connectionStatus s D = connected \<longrightarrow>
      ready_then D s = s\<lparr>reconnects := reconnects s @ [D],
                         status_slots := (status_slots s)(D := Suc (status_slots s D))\<rparr>) \<and>
   (\<not> has D s \<and> connectionStatus s D \<noteq> connected \<longrightarrow>
      ready_then D s = s\<lparr>status_slots := (status_slots s)(D := Suc (status_slots s D))\<rparr>) \<and>
   (\<not> session_ready s D \<and> ready_waiting s D = Suc 0 \<longrightarrow>
      step (SessionReady D) s =
        ready_then D (s\<lparr>session_ready := (session_ready s)(D := True),
                        ready_waiting := (ready_waiting s)(D := 0)\<rparr>)) \<and>
   (session_ready s D \<and> ready_waiting s D = 0 \<and> focus_slots s = Suc 0 \<longrightarrow>
      step (CurrentChanged (Some D)) s =
        ready_then D (updateCurrent Loading (s\<lparr>currentWidget := Some D\<rparr>)))"
proof -
  have a: "has D s \<longrightarrow>
      ready_then D s = s\<lparr>status_slots := (status_slots s)(D := Suc (status_slots s D))\<rparr>"
    by (simp add: ready_then_def open_def has_def Let_def split: option.splits)
  have b: "\<not> has D s \<and> connectionStatus s D = connected \<longrightarrow>
      ready_then D s = s\<lparr>reconnects := reconnects s @ [D],
                         status_slots := (status_slots s)(D := Suc (status_slots s D))\<rparr>"
    by (simp add: ready_then_def Let_def)
  have c: "\<not> has D s \<and> connectionStatus s D \<noteq> connected \<longrightarrow>
      ready_then D s = s\<lparr>status_slots := (status_slots s)(D := Suc (status_slots s D))\<rparr>"
    by (simp add: ready_then_def Let_def)
  have d: "\<not> session_ready s D \<and> ready_waiting s D = Suc 0 \<longrightarrow>
      step (SessionReady D) s =
        ready_then D (s\<lparr>session_ready := (session_ready s)(D := True),
                        ready_waiting := (ready_waiting s)(D := 0)\<rparr>)"
    by (simp add: run_ready_def)
  have e: "session_ready s D \<and> ready_waiting s D = 0 \<and> focus_slots s = Suc 0 \<longrightarrow>
      step (CurrentChanged (Some D)) s =
        ready_then D (updateCurrent Loading (s\<lparr>currentWidget := Some D\<rparr>))"
  proof
    assume h: "session_ready s D \<and> ready_waiting s D = 0 \<and> focus_slots s = Suc 0"
    then have w: "(ready_waiting s)(D := 0) = ready_waiting s"
      by (simp add: fun_eq_iff)
    have "(updateCurrent Loading (s\<lparr>currentWidget := Some D\<rparr>))
            \<lparr>ready_waiting := (ready_waiting s)(D := 0)\<rparr> =
          updateCurrent Loading (s\<lparr>currentWidget := Some D\<rparr>)"
      by (simp only: w) (simp add: updateCurrent_def)
    then show "step (CurrentChanged (Some D)) s =
        ready_then D (updateCurrent Loading (s\<lparr>currentWidget := Some D\<rparr>))"
      using h by (simp add: run_ready_def currentChanged_slot_def Let_def updateCurrent_def)
  qed
  from a b c d e show ?thesis by blast
qed

text \<open>
  C3. The source says at the call of \<^verbatim>\<open>open\<close> that, a comm being there already, it sends
  \<^verbatim>\<open>sparkconn-action-open\<close> by hand, as the claim does; \<^verbatim>\<open>open\<close> has that send
  commented out, and no handshake is re-issued. With a session of \<open>D\<close> registered and its
  comm acknowledged and not disposed, a second focus on \<open>D\<close> runs the continuation (the
  slots connected to the connection status go from one to two) and the outbox still holds
  the one handshake that \<^verbatim>\<open>create\<close> sent.
\<close>

theorem ready_with_session_sends_nothing:
  "has ''D'' (run [CurrentChanged (Some ''D''), ConnectionStatusChanged ''D'' connected,
                  OpenDone 0] (constructor example_host)) \<and>
   comms (run [CurrentChanged (Some ''D''), ConnectionStatusChanged ''D'' connected,
               OpenDone 0] (constructor example_host)) =
     [\<lparr>notebook = ''D'', states = new_NotebookStates,
       comm = \<lparr>isDisposed = False, open_done = True, creator = 0\<rparr>\<rparr>] \<and>
   status_slots (run [CurrentChanged (Some ''D''), ConnectionStatusChanged ''D'' connected,
                  OpenDone 0] (constructor example_host)) ''D'' = 1 \<and>
   status_slots (run [CurrentChanged (Some ''D''), ConnectionStatusChanged ''D'' connected,
                  OpenDone 0, CurrentChanged (Some ''D'')] (constructor example_host)) ''D'' = 2 \<and>
   outbox (run [CurrentChanged (Some ''D''), ConnectionStatusChanged ''D'' connected,
                OpenDone 0, CurrentChanged (Some ''D'')] (constructor example_host)) =
   [CommOpen 0 \<lparr>type = Some ''action'', action = ''sparkconn-action-open'', action_data = None\<rparr>]"
  by (simp add: handler_defs example_defs)

subsection \<open>Subscriptions to the action notifications\<close>

lemma onConnect_slot_run:
  "updates (onConnect_slot c cm x s) = Suc (updates s) \<and>
   currentState (onConnect_slot c cm x s) = Some (Connecting c) \<and>
   comm (comms (onConnect_slot c cm x s) ! c) = comm (comms s ! c) \<and>
   outbox (onConnect_slot c cm x s) =
     outbox s @
       (if isDisposed (comm (comms s ! c)) then []
        else [CommSend c \<lparr>type = Some ''action'', action = ''sparkconn-action-connect'',
                           action_data = Some (cm_options cm)\<rparr>])"
  by (simp add: onConnect_slot_def Let_def send_def setCurrentConfigToNotebook_def)

lemma onConnect_fold_run:
  "updates (fold (onConnect_slot c cm) xs s) = updates s + length xs \<and>
   (xs \<noteq> [] \<longrightarrow> currentState (fold (onConnect_slot c cm) xs s) = Some (Connecting c)) \<and>
   outbox (fold (onConnect_slot c cm) xs s) =
     outbox s @
       (if isDisposed (comm (comms s ! c)) then []
        else replicate (length xs)
          (CommSend c \<lparr>type = Some ''action'', action = ''sparkconn-action-connect'',
                        action_data = Some (cm_options cm)\<rparr>))"
proof (induction xs arbitrary: s rule: rev_induct)
  case Nil
  show ?case by simp
next
  case (snoc x xs)
  have d: "comm (comms (fold (onConnect_slot c cm) xs s) ! c) = comm (comms s ! c)"
    by (rule fold_field [where g = "\<lambda>s. comm (comms s ! c)"]) (simp add: onConnect_slot_run)
  show ?case
    by (simp add: snoc.IH onConnect_slot_run d replicate_append_same)
qed

lemma connected_slot_run:
  "updates (connected_onReconfigure_slot c s) = Suc (updates s) \<and>
   currentState (connected_onReconfigure_slot c s) = Some Loading \<and>
   outbox (connected_onReconfigure_slot c s) =
     outbox s @
       (if isDisposed (comm (comms s ! c)) then []
        else [CommSend c \<lparr>type = Some ''action'', action = ''sparkconn-action-disconnect'',
                           action_data = None\<rparr>])"
  by (simp add: connected_onReconfigure_slot_def Let_def send_def)

lemma connectfailed_slot_run:
  "updates (connectfailed_onReconfigure_slot c s) = Suc (updates s) \<and>
   currentState (connectfailed_onReconfigure_slot c s) = Some Loading \<and>
   outbox (connectfailed_onReconfigure_slot c s) =
     outbox s @
       (if isDisposed (comm (comms s ! c)) then []
        else [CommSend c \<lparr>type = None, action = ''sparkconn-action-disconnect'',
                           action_data = None\<rparr>])"
  by (simp add: connectfailed_onReconfigure_slot_def Let_def send_def)

lemma funpow_updates:
  fixes f :: "SparkConnector \<Rightarrow> SparkConnector"
  assumes "\<And>s. updates (f s) = Suc (updates s)"
  shows "updates ((f ^^ n) s) = updates s + n"
  by (induction n) (simp_all add: assms)

lemma with_states_nth_states:
  "c < length (comms s) \<Longrightarrow>
   states (comms (with_states c' f s) ! c) =
     (if c' = c then f (states (comms s ! c)) else states (comms s ! c))"
  by (simp add: with_states_def)

lemma funpow_subscriptions:
  fixes f :: "SparkConnector \<Rightarrow> SparkConnector"
  assumes "\<And>s. c < length (comms s) \<Longrightarrow>
      c < length (comms (f s)) \<and> subscriptions c (f s) = subscriptions c s"
    and "c < length (comms s)"
  shows "c < length (comms ((f ^^ n) s)) \<and> subscriptions c ((f ^^ n) s) = subscriptions c s"
proof (induction n)
  case 0
  show ?case using assms(2) by simp
next
  case (Suc n)
  from assms(1) [of "(f ^^ n) s"] Suc show ?case by simp
qed

lemma fold_subscriptions:
  fixes f :: "'a \<Rightarrow> SparkConnector \<Rightarrow> SparkConnector"
  assumes "\<And>x s. c < length (comms s) \<Longrightarrow>
      c < length (comms (f x s)) \<and> subscriptions c (f x s) = subscriptions c s"
    and "c < length (comms s)"
  shows "c < length (comms (fold f xs s)) \<and> subscriptions c (fold f xs s) = subscriptions c s"
  using assms(2)
proof (induction xs arbitrary: s)
  case Nil
  then show ?case by simp
next
  case (Cons x xs)
  from assms(1) [OF Cons.prems, of x] Cons.IH [of "f x s"] show ?case by simp
qed

lemma subscriptions_currentChanged_slot:
  "c < length (comms s) \<Longrightarrow>
   c < length (comms (currentChanged_slot nbPanel s)) \<and>
   subscriptions c (currentChanged_slot nbPanel s) = subscriptions c s"
  by (cases nbPanel) (simp_all add: subscriptions_def currentChanged_slot_def Let_def)

lemma subscriptions_ready_then:
  "c < length (comms s) \<Longrightarrow>
   c < length (comms (ready_then nb s)) \<and> subscriptions c (ready_then nb s) = subscriptions c s"
  by (simp add: subscriptions_def ready_then_def open_def Let_def split: option.splits)

lemma subscriptions_run_ready:
  "c < length (comms s) \<Longrightarrow>
   c < length (comms (run_ready nb s)) \<and> subscriptions c (run_ready nb s) = subscriptions c s"
proof -
  assume c: "c < length (comms s)"
  let ?s = "s\<lparr>ready_waiting := (ready_waiting s)(nb := 0)\<rparr>"
  have "c < length (comms ?s)" using c by simp
  then have "c < length (comms ((ready_then nb ^^ ready_waiting s nb) ?s)) \<and>
      subscriptions c ((ready_then nb ^^ ready_waiting s nb) ?s) = subscriptions c ?s"
    by (rule funpow_subscriptions [rotated]) (rule subscriptions_ready_then)
  then show ?thesis by (simp add: run_ready_def subscriptions_def)
qed

lemma subscriptions_status_slot:
  "c < length (comms s) \<Longrightarrow>
   c < length (comms (connectionStatusChanged_slot nb status s)) \<and>
   subscriptions c (connectionStatusChanged_slot nb status s) = subscriptions c s"
  by (simp add: subscriptions_def connectionStatusChanged_slot_def create_def close_def Let_def
      nth_append)

lemma subscriptions_statusChanged_slot:
  "c < length (comms s) \<Longrightarrow>
   c < length (comms (statusChanged_slot nb status s)) \<and>
   subscriptions c (statusChanged_slot nb status s) = subscriptions c s"
  by (simp add: subscriptions_def statusChanged_slot_def)

lemma subscriptions_reconnect_then:
  "c < length (comms s) \<Longrightarrow>
   c < length (comms (reconnect_then s)) \<and>
   subscriptions c (reconnect_then s) = subscriptions c s"
  by (simp add: subscriptions_def reconnect_then_def initStateHandling_def)

lemma subscriptions_onConnect_slot:
  "c < length (comms s) \<Longrightarrow>
   c < length (comms (onConnect_slot c' cm x s)) \<and>
   subscriptions c (onConnect_slot c' cm x s) = subscriptions c s"
  by (simp add: subscriptions_def onConnect_slot_def Let_def send_def
      setCurrentConfigToNotebook_def updateCurrent_def with_states_nth_states)

lemma subscriptions_connected_slot:
  "c < length (comms s) \<Longrightarrow>
   c < length (comms (connected_onReconfigure_slot c' s)) \<and>
   subscriptions c (connected_onReconfigure_slot c' s) = subscriptions c s"
  by (simp add: subscriptions_def connected_onReconfigure_slot_def Let_def send_def)

lemma subscriptions_connectfailed_slot:
  "c < length (comms s) \<Longrightarrow>
   c < length (comms (connectfailed_onReconfigure_slot c' s)) \<and>
   subscriptions c (connectfailed_onReconfigure_slot c' s) = subscriptions c s"
  by (simp add: subscriptions_def connectfailed_onReconfigure_slot_def Let_def send_def)

lemma subscriptions_onCommMessage:
  "c < length (comms s) \<Longrightarrow>
   subscriptions c (onCommMessage data c' s) =
     (if c' = c then
        (if msgtype data = ''sparkconn-action-open'' \<and> page data = ''sparkconn-config''
         then (onConnect (states (comms s ! c)) @
                 [(title s (notebook (comms s ! c)), sparkversion data, cluster data)],
               connected_onReconfigure (states (comms s ! c)),
               connectfailed_onReconfigure (states (comms s ! c)))
         else if msgtype data = ''sparkconn-connected'' \<and> config data \<noteq> None
         then (onConnect (states (comms s ! c)),
               Suc (connected_onReconfigure (states (comms s ! c))),
               connectfailed_onReconfigure (states (comms s ! c)))
         else if msgtype data = ''sparkconn-connect-error''
         then (onConnect (states (comms s ! c)),
               connected_onReconfigure (states (comms s ! c)),
               Suc (connectfailed_onReconfigure (states (comms s ! c))))
         else subscriptions c s)
      else subscriptions c s)"
  by (auto simp: subscriptions_def onCommMessage_def Let_def with_states_nth_states
      split: option.splits)

lemma subscriptions_step:
  assumes "c < length (comms s)"
  shows "subscriptions c (step e s) =
     (case e of
        CommMsg c' data \<Rightarrow>
          if c' = c \<and> \<not> isDisposed (comm (comms s ! c)) \<and>
             currentWidget s = Some (notebook (comms s ! c))
          then
            (if msgtype data = ''sparkconn-action-open'' \<and> page data = ''sparkconn-config''
             then (onConnect (states (comms s ! c)) @
                     [(title s (notebook (comms s ! c)), sparkversion data, cluster data)],
                   connected_onReconfigure (states (comms s ! c)),
                   connectfailed_onReconfigure (states (comms s ! c)))
             else if msgtype data = ''sparkconn-connected'' \<and> config data \<noteq> None
             then (onConnect (states (comms s ! c)),
                   Suc (connected_onReconfigure (states (comms s ! c))),
                   connectfailed_onReconfigure (states (comms s ! c)))
             else if msgtype data = ''sparkconn-connect-error''
             then (onConnect (states (comms s ! c)),
                   connected_onReconfigure (states (comms s ! c)),
                   Suc (connectfailed_onReconfigure (states (comms s ! c))))
             else subscriptions c s)
          else subscriptions c s
      | _ \<Rightarrow> subscriptions c s)"
proof (cases e)
  case (CurrentChanged nbPanel)
  let ?s = "s\<lparr>currentWidget := nbPanel\<rparr>"
  have "c < length (comms ?s)" using assms by simp
  then have a: "c < length (comms ((currentChanged_slot nbPanel ^^ focus_slots s) ?s)) \<and>
      subscriptions c ((currentChanged_slot nbPanel ^^ focus_slots s) ?s) = subscriptions c ?s"
    by (rule funpow_subscriptions [rotated]) (rule subscriptions_currentChanged_slot)
  have b: "subscriptions c ?s = subscriptions c s"
    by (simp add: subscriptions_def)
  show ?thesis
  proof (cases nbPanel)
    case None
    with a b CurrentChanged show ?thesis by simp
  next
    case (Some nb)
    with a b CurrentChanged
      subscriptions_run_ready [of c "(currentChanged_slot nbPanel ^^ focus_slots s) ?s" nb]
    show ?thesis by (simp add: Let_def)
  qed
next
  case (SessionReady nb)
  let ?s = "s\<lparr>session_ready := (session_ready s)(nb := True)\<rparr>"
  have "c < length (comms ?s)" using assms by simp
  from subscriptions_run_ready [OF this, of nb] SessionReady
  show ?thesis by (simp add: subscriptions_def)
next
  case (ConnectionStatusChanged nb status)
  let ?s = "s\<lparr>connectionStatus := (connectionStatus s)(nb := status)\<rparr>"
  have "c < length (comms ?s)" using assms by simp
  then have "c < length (comms ((connectionStatusChanged_slot nb status ^^ status_slots s nb) ?s)) \<and>
      subscriptions c ((connectionStatusChanged_slot nb status ^^ status_slots s nb) ?s) =
        subscriptions c ?s"
    by (rule funpow_subscriptions [rotated]) (rule subscriptions_status_slot)
  then show ?thesis using ConnectionStatusChanged by (simp add: subscriptions_def)
next
  case (StatusChanged nb status)
  from assms have "c < length (comms ((statusChanged_slot nb status ^^ restart_slots s nb) s)) \<and>
      subscriptions c ((statusChanged_slot nb status ^^ restart_slots s nb) s) = subscriptions c s"
    by (rule funpow_subscriptions [rotated]) (rule subscriptions_statusChanged_slot)
  then show ?thesis using StatusChanged by simp
next
  case (ReconnectDone nb)
  let ?s = "s\<lparr>reset_waiting := (reset_waiting s)(nb := 0)\<rparr>"
  have "c < length (comms ?s)" using assms by simp
  then have "c < length (comms ((reconnect_then ^^ reset_waiting s nb) ?s)) \<and>
      subscriptions c ((reconnect_then ^^ reset_waiting s nb) ?s) = subscriptions c ?s"
    by (rule funpow_subscriptions [rotated]) (rule subscriptions_reconnect_then)
  then show ?thesis using ReconnectDone by (simp add: subscriptions_def)
next
  case (OpenDone c')
  then show ?thesis
    using assms by (simp add: subscriptions_def open_then_def nth_list_update)
next
  case (CommClosed c')
  then show ?thesis
    using assms by (simp add: subscriptions_def onClose_def Let_def nth_list_update)
next
  case (CommMsg c' data)
  show ?thesis
  proof (cases "c' < length (comms s) \<and> \<not> isDisposed (comm (comms s ! c')) \<and>
      currentWidget s = Some (notebook (comms s ! c'))")
    case True
    then have "step e s = onCommMessage data c' s"
      using CommMsg by (simp add: onMsg_def)
    then have "subscriptions c (step e s) = subscriptions c (onCommMessage data c' s)"
      by simp
    then show ?thesis
      using True CommMsg
      by (simp only: subscriptions_onCommMessage [OF assms] event.case) auto
  next
    case False
    then have "step e s = s"
      using CommMsg by (auto simp: onMsg_def)
    then show ?thesis
      using False CommMsg assms by auto
  qed
next
  case (ConnectClicked c' cm)
  from assms have "c < length (comms (fold (onConnect_slot c' cm) (onConnect (states (comms s ! c'))) s)) \<and>
      subscriptions c (fold (onConnect_slot c' cm) (onConnect (states (comms s ! c'))) s) =
        subscriptions c s"
    by (rule fold_subscriptions [rotated]) (rule subscriptions_onConnect_slot)
  then show ?thesis using ConnectClicked by simp
next
  case (ConnectedReconfigure c')
  from assms have "c < length (comms ((connected_onReconfigure_slot c' ^^
        connected_onReconfigure (states (comms s ! c'))) s)) \<and>
      subscriptions c ((connected_onReconfigure_slot c' ^^
        connected_onReconfigure (states (comms s ! c'))) s) = subscriptions c s"
    by (rule funpow_subscriptions [rotated]) (rule subscriptions_connected_slot)
  then show ?thesis using ConnectedReconfigure by simp
next
  case (ConnectFailedReconfigure c')
  from assms have "c < length (comms ((connectfailed_onReconfigure_slot c' ^^
        connectfailed_onReconfigure (states (comms s ! c'))) s)) \<and>
      subscriptions c ((connectfailed_onReconfigure_slot c' ^^
        connectfailed_onReconfigure (states (comms s ! c'))) s) = subscriptions c s"
    by (rule funpow_subscriptions [rotated]) (rule subscriptions_connectfailed_slot)
  then show ?thesis using ConnectFailedReconfigure by simp
qed

text \<open>
  C2, as the code has it. A comm starts with no handler connected to the action
  notification of any of its phases. For a comm that exists, an event changes the
  handlers connected in one case only: a handled message that enters a phase (the open
  message with the configuration page, the connected message with a \<^verbatim>\<open>config\<close>, the
  connect-error message; a message is handled on a comm that is not disposed, while its
  notebook is focused) connects one more handler to the action notification of that
  phase. A firing of the notification runs every handler connected: with \<open>n\<close> handlers
  the display is updated \<open>n\<close> times. A firing of the connect action displays Connecting
  when there is a handler, and sends \<open>n\<close> connect messages when the comm is not disposed
  and none when it is. One run of a reconfigure handler displays Loading and sends one
  disconnect message when the comm is not disposed, none when it is. So the handler runs
  once per firing when the phase was entered once, and once per entry otherwise.
\<close>

theorem one_subscription_per_message:
  assumes "c < length (comms s)"
  shows
   "subscriptions (length (comms s)) (snd (create nb s)) = ([], 0, 0) \<and>
    subscriptions c (step e s) =
     (case e of
        CommMsg c' data \<Rightarrow>
          if c' = c \<and> \<not> isDisposed (comm (comms s ! c)) \<and>
             currentWidget s = Some (notebook (comms s ! c))
          then
            (if msgtype data = ''sparkconn-action-open'' \<and> page data = ''sparkconn-config''
             then (onConnect (states (comms s ! c)) @
                     [(title s (notebook (comms s ! c)), sparkversion data, cluster data)],
                   connected_onReconfigure (states (comms s ! c)),
                   connectfailed_onReconfigure (states (comms s ! c)))
             else if msgtype data = ''sparkconn-connected'' \<and> config data \<noteq> None
             then (onConnect (states (comms s ! c)),
                   Suc (connected_onReconfigure (states (comms s ! c))),
                   connectfailed_onReconfigure (states (comms s ! c)))
             else if msgtype data = ''sparkconn-connect-error''
             then (onConnect (states (comms s ! c)),
                   connected_onReconfigure (states (comms s ! c)),
                   Suc (connectfailed_onReconfigure (states (comms s ! c))))
             else subscriptions c s)
          else subscriptions c s
      | _ \<Rightarrow> subscriptions c s) \<and>
    updates (step (ConnectClicked c cm) s) =
      updates s + length (onConnect (states (comms s ! c))) \<and>
    (onConnect (states (comms s ! c)) \<noteq> [] \<longrightarrow>
       currentState (step (ConnectClicked c cm) s) = Some (Connecting c)) \<and>
    outbox (step (ConnectClicked c cm) s) =
      outbox s @
        (if isDisposed (comm (comms s ! c)) then []
         else replicate (length (onConnect (states (comms s ! c))))
           (CommSend c \<lparr>type = Some ''action'', action = ''sparkconn-action-connect'',
                         action_data = Some (cm_options cm)\<rparr>)) \<and>
    updates (step (ConnectedReconfigure c) s) =
      updates s + connected_onReconfigure (states (comms s ! c)) \<and>
    currentState (connected_onReconfigure_slot c s) = Some Loading \<and>
    outbox (connected_onReconfigure_slot c s) =
      outbox s @
        (if isDisposed (comm (comms s ! c)) then []
         else [CommSend c \<lparr>type = Some ''action'', action = ''sparkconn-action-disconnect'',
                            action_data = None\<rparr>]) \<and>
    updates (step (ConnectFailedReconfigure c) s) =
      updates s + connectfailed_onReconfigure (states (comms s ! c)) \<and>
    currentState (connectfailed_onReconfigure_slot c s) = Some Loading \<and>
    outbox (connectfailed_onReconfigure_slot c s) =
      outbox s @
        (if isDisposed (comm (comms s ! c)) then []
         else [CommSend c \<lparr>type = None, action = ''sparkconn-action-disconnect'',
                            action_data = None\<rparr>])"
proof -
  have n: "subscriptions (length (comms s)) (snd (create nb s)) = ([], 0, 0)"
    by (simp add: subscriptions_def create_def new_NotebookStates_def Let_def)
  note m = subscriptions_step [OF assms, of e]
  have f: "step (ConnectClicked c cm) s =
      fold (onConnect_slot c cm) (onConnect (states (comms s ! c))) s"
    using assms by simp
  note r = onConnect_fold_run [of c cm "onConnect (states (comms s ! c))" s]
  have f1: "updates (step (ConnectClicked c cm) s) =
      updates s + length (onConnect (states (comms s ! c)))"
    and f2: "onConnect (states (comms s ! c)) \<noteq> [] \<longrightarrow>
       currentState (step (ConnectClicked c cm) s) = Some (Connecting c)"
    and f3: "outbox (step (ConnectClicked c cm) s) =
      outbox s @
        (if isDisposed (comm (comms s ! c)) then []
         else replicate (length (onConnect (states (comms s ! c))))
           (CommSend c \<lparr>type = Some ''action'', action = ''sparkconn-action-connect'',
                         action_data = Some (cm_options cm)\<rparr>))"
    unfolding f using r by blast+
  have g1: "updates (step (ConnectedReconfigure c) s) =
      updates s + connected_onReconfigure (states (comms s ! c))"
    using assms by (simp add: funpow_updates connected_slot_run)
  have g2: "updates (step (ConnectFailedReconfigure c) s) =
      updates s + connectfailed_onReconfigure (states (comms s ! c))"
    using assms by (simp add: funpow_updates connectfailed_slot_run)
  note a = connected_slot_run [of c s] and b = connectfailed_slot_run [of c s]
  from n m f1 f2 f3 g1 g2 a b show ?thesis by blast
qed

theorem one_subscription_per_message_witness:
  "subscriptions 0 (step (CommMsg 0 (example_data ''sparkconn-action-open''))
     (run [CurrentChanged (Some ''D''), ConnectionStatusChanged ''D'' connected,
           CommMsg 0 (example_data ''sparkconn-action-open'')] (constructor example_host))) =
     ([(''D'', ''3.5'', ''k8s''), (''D'', ''3.5'', ''k8s'')], 0, 0) \<and>
   subscriptions 0 (step (CommMsg 0 (example_data ''sparkconn-connected''))
     (run [CurrentChanged (Some ''D''), ConnectionStatusChanged ''D'' connected,
           CommMsg 0 (example_data ''sparkconn-action-open'')] (constructor example_host))) =
     ([(''D'', ''3.5'', ''k8s'')], Suc 0, 0) \<and>
   subscriptions 0 (step (CommMsg 0 (example_data ''sparkconn-connect-error''))
     (run [CurrentChanged (Some ''D''), ConnectionStatusChanged ''D'' connected,
           CommMsg 0 (example_data ''sparkconn-action-open'')] (constructor example_host))) =
     ([(''D'', ''3.5'', ''k8s'')], 0, Suc 0) \<and>
   currentState (step (ConnectClicked 0 example_connect)
     (run [CurrentChanged (Some ''D''), ConnectionStatusChanged ''D'' connected,
           CommMsg 0 (example_data ''sparkconn-action-open'')] (constructor example_host))) =
     Some (Connecting 0) \<and>
   outbox (step (ConnectClicked 0 example_connect)
     (run [CurrentChanged (Some ''D''), ConnectionStatusChanged ''D'' connected,
           CommMsg 0 (example_data ''sparkconn-action-open'')] (constructor example_host))) =
     [CommOpen 0 \<lparr>type = Some ''action'', action = ''sparkconn-action-open'', action_data = None\<rparr>,
      CommSend 0 \<lparr>type = Some ''action'', action = ''sparkconn-action-connect'',
                  action_data = Some ''{}''\<rparr>] \<and>
   currentState (step (ConnectClicked 0 example_connect)
     (run [CurrentChanged (Some ''D''), ConnectionStatusChanged ''D'' connected,
           CommMsg 0 (example_data ''sparkconn-action-open''), CommClosed 0]
        (constructor example_host))) = Some (Connecting 0) \<and>
   outbox (step (ConnectClicked 0 example_connect)
     (run [CurrentChanged (Some ''D''), ConnectionStatusChanged ''D'' connected,
           CommMsg 0 (example_data ''sparkconn-action-open''), CommClosed 0]
        (constructor example_host))) =
     [CommOpen 0 \<lparr>type = Some ''action'', action = ''sparkconn-action-open'', action_data = None\<rparr>]"
proof -
  let ?s = "run [CurrentChanged (Some ''D''), ConnectionStatusChanged ''D'' connected,
           CommMsg 0 (example_data ''sparkconn-action-open'')] (constructor example_host)"
  let ?d = "run [CurrentChanged (Some ''D''), ConnectionStatusChanged ''D'' connected,
           CommMsg 0 (example_data ''sparkconn-action-open''), CommClosed 0]
        (constructor example_host)"
  have c: "0 < length (comms ?s)" and d: "\<not> isDisposed (comm (comms ?s ! 0))"
    and f: "currentWidget ?s = Some (notebook (comms ?s ! 0))"
    and n: "onConnect (states (comms ?s ! 0)) = [(''D'', ''3.5'', ''k8s'')]"
      "connected_onReconfigure (states (comms ?s ! 0)) = 0"
      "connectfailed_onReconfigure (states (comms ?s ! 0)) = 0"
    and tt: "title ?s (notebook (comms ?s ! 0)) = ''D''"
    and o: "outbox ?s =
      [CommOpen 0 \<lparr>type = Some ''action'', action = ''sparkconn-action-open'', action_data = None\<rparr>]"
    by (simp_all add: handler_defs example_defs)
  have c': "0 < length (comms ?d)" and d': "isDisposed (comm (comms ?d ! 0))"
    and n': "onConnect (states (comms ?d ! 0)) = [(''D'', ''3.5'', ''k8s'')]"
    and o': "outbox ?d =
      [CommOpen 0 \<lparr>type = Some ''action'', action = ''sparkconn-action-open'', action_data = None\<rparr>]"
    by (simp_all add: handler_defs example_defs)
  have m: "\<And>t. msgtype (example_data t) = t" "\<And>t. page (example_data t) = ''sparkconn-config''"
    "\<And>t. config (example_data t) = Some ''http://h''"
    "\<And>t. sparkversion (example_data t) = ''3.5''" "\<And>t. cluster (example_data t) = ''k8s''"
    "cm_options example_connect = ''{}''"
    by (simp_all add: example_defs)
  have e: "onConnect (states (comms ?s ! 0)) \<noteq> []" and e': "onConnect (states (comms ?d ! 0)) \<noteq> []"
    by (simp_all only: n n') simp_all
  note t = one_subscription_per_message [OF c]
  from t [of "''D''" "CommMsg 0 (example_data ''sparkconn-action-open'')" example_connect]
  have 1: "subscriptions 0 (step (CommMsg 0 (example_data ''sparkconn-action-open'')) ?s) =
      ([(''D'', ''3.5'', ''k8s''), (''D'', ''3.5'', ''k8s'')], 0, 0)"
    by (simp only: event.case d f m n tt) simp
  from t [of "''D''" "CommMsg 0 (example_data ''sparkconn-connected'')" example_connect]
  have 2: "subscriptions 0 (step (CommMsg 0 (example_data ''sparkconn-connected'')) ?s) =
      ([(''D'', ''3.5'', ''k8s'')], Suc 0, 0)"
    by (simp only: event.case d f m n tt) simp
  from t [of "''D''" "CommMsg 0 (example_data ''sparkconn-connect-error'')" example_connect]
  have 3: "subscriptions 0 (step (CommMsg 0 (example_data ''sparkconn-connect-error'')) ?s) =
      ([(''D'', ''3.5'', ''k8s'')], 0, Suc 0)"
    by (simp only: event.case d f m n tt) simp
  from t [of "''D''" "CommMsg 0 (example_data ''sparkconn-action-open'')" example_connect] e
  have 4: "outbox (step (ConnectClicked 0 example_connect) ?s) =
      outbox ?s @
        (if isDisposed (comm (comms ?s ! 0)) then []
         else replicate (length (onConnect (states (comms ?s ! 0))))
           (CommSend 0 \<lparr>type = Some ''action'', action = ''sparkconn-action-connect'',
                         action_data = Some (cm_options example_connect)\<rparr>))"
    and 5: "currentState (step (ConnectClicked 0 example_connect) ?s) = Some (Connecting 0)"
    by blast+
  from one_subscription_per_message [OF c', of "''D''"
      "CommMsg 0 (example_data ''sparkconn-action-open'')" example_connect] e'
  have 6: "currentState (step (ConnectClicked 0 example_connect) ?d) = Some (Connecting 0)"
    and 7: "outbox (step (ConnectClicked 0 example_connect) ?d) =
      outbox ?d @
        (if isDisposed (comm (comms ?d ! 0)) then []
         else replicate (length (onConnect (states (comms ?d ! 0))))
           (CommSend 0 \<lparr>type = Some ''action'', action = ''sparkconn-action-connect'',
                         action_data = Some (cm_options example_connect)\<rparr>))"
    by blast+
  have d0: "isDisposed (comm (comms ?s ! 0)) = False"
    using d by simp
  have d1: "isDisposed (comm (comms ?d ! 0)) = True"
    using d' by simp
  show ?thesis
    by (simp only: 1 2 3 4 5 6 7 n n' o o' m(6) d0 d1) simp
qed

text \<open>
  The claim as stated fails: after two open messages with the configuration page on the
  same comm, one connect action sends two connect messages.
\<close>

theorem reentry_duplicates_send:
  "outbox (run [CurrentChanged (Some ''D''), ConnectionStatusChanged ''D'' connected,
       CommMsg 0 (example_data ''sparkconn-action-open''),
       CommMsg 0 (example_data ''sparkconn-action-open''),
       ConnectClicked 0 example_connect] (constructor example_host)) =
   [CommOpen 0 \<lparr>type = Some ''action'', action = ''sparkconn-action-open'', action_data = None\<rparr>,
    CommSend 0 \<lparr>type = Some ''action'', action = ''sparkconn-action-connect'',
                action_data = Some ''{}''\<rparr>,
    CommSend 0 \<lparr>type = Some ''action'', action = ''sparkconn-action-connect'',
                action_data = Some ''{}''\<rparr>]"
  by (simp add: handler_defs example_defs)

subsection \<open>The displayed phase\<close>

lemma display_step_refl: "display_step s s"
  by (simp add: display_step_def)

lemma display_step_trans: "display_step s s' \<Longrightarrow> display_step s' s'' \<Longrightarrow> display_step s s''"
  by (auto simp: display_step_def)

lemma display_step_funpow:
  assumes "\<And>s. display_step s (f s)"
  shows "display_step s ((f ^^ n) s)"
proof (induction n)
  case 0
  show ?case by (simp add: display_step_refl)
next
  case (Suc n)
  from Suc assms [of "(f ^^ n) s"] show ?case
    by (simp add: display_step_trans)
qed

lemma display_step_fold:
  assumes "\<And>x s. display_step s (f x s)"
  shows "display_step s (fold f xs s)"
proof (induction xs arbitrary: s)
  case Nil
  show ?case by (simp add: display_step_refl)
next
  case (Cons x xs)
  from assms [of s x] Cons [of "f x s"] show ?case
    by (simp add: display_step_trans)
qed

lemma display_step_updateCurrent: "display_step s (updateCurrent st s)"
  by (simp add: display_step_def)

lemma display_step_with_states: "display_step s (with_states c f s)"
  by (simp add: display_step_def)

lemma display_step_currentChanged_slot: "display_step s (currentChanged_slot nbPanel s)"
  by (cases nbPanel) (simp_all add: display_step_def currentChanged_slot_def Let_def)

lemma display_step_ready_then: "display_step s (ready_then nb s)"
  by (simp add: display_step_def ready_then_def open_def Let_def split: option.splits)

lemma display_step_run_ready: "display_step s (run_ready nb s)"
proof -
  have "display_step s (s\<lparr>ready_waiting := (ready_waiting s)(nb := 0)\<rparr>)"
    by (simp add: display_step_def)
  moreover have "display_step (s\<lparr>ready_waiting := (ready_waiting s)(nb := 0)\<rparr>) (run_ready nb s)"
    unfolding run_ready_def by (rule display_step_funpow) (rule display_step_ready_then)
  ultimately show ?thesis by (rule display_step_trans)
qed

lemma display_step_status_slot: "display_step s (connectionStatusChanged_slot nb status s)"
  by (simp add: display_step_def connectionStatusChanged_slot_def create_def close_def Let_def)

lemma display_step_statusChanged_slot: "display_step s (statusChanged_slot nb status s)"
  by (simp add: display_step_def statusChanged_slot_def)

lemma display_step_onCommMessage: "display_step s (onCommMessage data c s)"
  by (simp add: display_step_def onCommMessage_def Let_def split: option.splits)

lemma display_step_onConnect_slot: "display_step s (onConnect_slot c cm x s)"
  by (simp add: display_step_def onConnect_slot_def Let_def send_def setCurrentConfigToNotebook_def)

lemma display_step_connected_slot: "display_step s (connected_onReconfigure_slot c s)"
  by (simp add: display_step_def connected_onReconfigure_slot_def Let_def send_def)

lemma display_step_connectfailed_slot: "display_step s (connectfailed_onReconfigure_slot c s)"
  by (simp add: display_step_def connectfailed_onReconfigure_slot_def Let_def send_def)

lemma reset_display:
  "currentState ((reconnect_then ^^ Suc n) s) = Some NotAttached"
  by (simp add: reconnect_then_def initStateHandling_def)

lemma reset_updates: "updates ((reconnect_then ^^ n) s) = updates s"
  by (induction n) (simp_all add: reconnect_then_def initStateHandling_def)

lemma display_step_step:
  "(\<forall>nb. e \<noteq> ReconnectDone nb) \<Longrightarrow> display_step s (step e s)"
proof (cases e)
  case (CurrentChanged nbPanel)
  have a: "display_step s (s\<lparr>currentWidget := nbPanel\<rparr>)"
    by (simp add: display_step_def)
  have b: "display_step (s\<lparr>currentWidget := nbPanel\<rparr>)
      ((currentChanged_slot nbPanel ^^ focus_slots s) (s\<lparr>currentWidget := nbPanel\<rparr>))"
    by (rule display_step_funpow) (rule display_step_currentChanged_slot)
  note ab = display_step_trans [OF a b]
  show ?thesis
  proof (cases nbPanel)
    case None
    with ab CurrentChanged show ?thesis by simp
  next
    case (Some nb)
    with ab CurrentChanged display_step_trans [OF ab display_step_run_ready]
    show ?thesis by (simp add: Let_def)
  qed
next
  case (SessionReady nb)
  have "display_step s (s\<lparr>session_ready := (session_ready s)(nb := True)\<rparr>)"
    by (simp add: display_step_def)
  from display_step_trans [OF this display_step_run_ready] SessionReady
  show ?thesis by (simp add: display_step_refl)
next
  case (ConnectionStatusChanged nb status)
  have a: "display_step s (s\<lparr>connectionStatus := (connectionStatus s)(nb := status)\<rparr>)"
    by (simp add: display_step_def)
  have b: "display_step (s\<lparr>connectionStatus := (connectionStatus s)(nb := status)\<rparr>)
     ((connectionStatusChanged_slot nb status ^^ status_slots s nb)
       (s\<lparr>connectionStatus := (connectionStatus s)(nb := status)\<rparr>))"
    by (rule display_step_funpow) (rule display_step_status_slot)
  from display_step_trans [OF a b] ConnectionStatusChanged show ?thesis by simp
next
  case (StatusChanged nb status)
  then show ?thesis
    by (simp add: display_step_funpow display_step_statusChanged_slot)
next
  case (ReconnectDone nb)
  assume "\<forall>nb. e \<noteq> ReconnectDone nb"
  with ReconnectDone show ?thesis by simp
next
  case (OpenDone c)
  then show ?thesis by (simp add: display_step_def open_then_def)
next
  case (CommClosed c)
  then show ?thesis by (simp add: display_step_def onClose_def Let_def)
next
  case (CommMsg c data)
  then show ?thesis by (simp add: onMsg_def display_step_onCommMessage display_step_refl)
next
  case (ConnectClicked c cm)
  then show ?thesis
    by (simp add: display_step_fold display_step_onConnect_slot display_step_refl)
next
  case (ConnectedReconfigure c)
  then show ?thesis
    by (simp add: display_step_funpow display_step_connected_slot display_step_refl)
next
  case (ConnectFailedReconfigure c)
  then show ?thesis
    by (simp add: display_step_funpow display_step_connectfailed_slot display_step_refl)
qed

lemma display_reset:
  "currentState (step (ReconnectDone nb) s) =
     (if 0 < reset_waiting s nb then Some NotAttached else currentState s) \<and>
   updates (step (ReconnectDone nb) s) = updates s"
  by (cases "reset_waiting s nb") (simp_all only: step.simps reset_display reset_updates, simp_all)

lemma display_set_step: "currentState s \<noteq> None \<Longrightarrow> currentState (step e s) \<noteq> None"
proof (cases "\<exists>nb. e = ReconnectDone nb")
  case True
  assume "currentState s \<noteq> None"
  with True show ?thesis by (auto simp only: display_reset split: if_splits)
next
  case False
  assume "currentState s \<noteq> None"
  with False display_step_step [of e s] show ?thesis by (simp add: display_step_def)
qed

lemma display_set_run: "currentState s \<noteq> None \<Longrightarrow> currentState (run es s) \<noteq> None"
  unfolding run_def
proof (induction es arbitrary: s)
  case Nil
  then show ?case by simp
next
  case (Cons e es)
  from Cons.prems have "currentState (step e s) \<noteq> None"
    by (rule display_set_step)
  then have "currentState (fold step es (step e s)) \<noteq> None"
    by (rule Cons.IH)
  then show ?case by simp
qed

text \<open>
  C10, as the code has it. The constructor leaves NotAttached displayed; in every state
  the widget reaches a phase is set; and an event that changes the displayed phase does
  so through \<^verbatim>\<open>updateCurrent\<close>, which requests an update, except the reset after a
  reconnect, where \<^verbatim>\<open>initStateHandling\<close> assigns NotAttached and requests none.
\<close>

theorem displayed_phase:
  "currentState (constructor h) = Some NotAttached \<and>
   currentState (run es (constructor h)) \<noteq> None \<and>
   (currentState (step e s) \<noteq> currentState s \<longrightarrow>
      updates s < updates (step e s) \<or>
      (\<exists>nb. e = ReconnectDone nb \<and> 0 < reset_waiting s nb \<and>
         currentState (step e s) = Some NotAttached \<and> updates (step e s) = updates s))"
proof -
  have a: "currentState (constructor h) = Some NotAttached"
    by (simp add: constructor_def initStateHandling_def)
  then have b: "currentState (run es (constructor h)) \<noteq> None"
    by (simp add: display_set_run)
  have c: "currentState (step e s) \<noteq> currentState s \<longrightarrow>
      updates s < updates (step e s) \<or>
      (\<exists>nb. e = ReconnectDone nb \<and> 0 < reset_waiting s nb \<and>
         currentState (step e s) = Some NotAttached \<and> updates (step e s) = updates s)"
  proof (cases "\<exists>nb. e = ReconnectDone nb")
    case True
    then obtain nb where e: "e = ReconnectDone nb" by blast
    show ?thesis
      unfolding e using display_reset [of nb s] by (auto split: if_splits)
  next
    case False
    with display_step_step [of e s] show ?thesis by (simp add: display_step_def)
  qed
  from a b c show ?thesis by blast
qed

theorem displayed_phase_witness:
  "currentState (step (CurrentChanged (Some ''D'')) (constructor example_host)) \<noteq>
     currentState (constructor example_host) \<and>
   updates (constructor example_host) <
     updates (step (CurrentChanged (Some ''D'')) (constructor example_host)) \<and>
   currentState (step (ReconnectDone ''D'')
     (run [CurrentChanged (Some ''D''), ConnectionStatusChanged ''D'' connected,
       CommMsg 0 (example_data ''sparkconn-connected''), StatusChanged ''D'' restarting]
       (constructor example_host))) \<noteq>
   currentState (run [CurrentChanged (Some ''D''), ConnectionStatusChanged ''D'' connected,
       CommMsg 0 (example_data ''sparkconn-connected''), StatusChanged ''D'' restarting]
       (constructor example_host)) \<and>
   currentState (step (ReconnectDone ''D'')
     (run [CurrentChanged (Some ''D''), ConnectionStatusChanged ''D'' connected,
       CommMsg 0 (example_data ''sparkconn-connected''), StatusChanged ''D'' restarting]
       (constructor example_host))) = Some NotAttached"
proof -
  let ?s = "constructor example_host"
  let ?r = "run [CurrentChanged (Some ''D''), ConnectionStatusChanged ''D'' connected,
       CommMsg 0 (example_data ''sparkconn-connected''), StatusChanged ''D'' restarting]
       (constructor example_host)"
  have a: "currentState (step (CurrentChanged (Some ''D'')) ?s) \<noteq> currentState ?s"
    by (simp add: handler_defs example_defs)
  have b: "currentState (step (ReconnectDone ''D'') ?r) \<noteq> currentState ?r"
    and u: "\<not> updates ?r < updates (step (ReconnectDone ''D'') ?r)"
    by (simp_all add: handler_defs example_defs)
  from displayed_phase [of example_host "[]" "CurrentChanged (Some ''D'')" ?s] a
  have c: "updates ?s < updates (step (CurrentChanged (Some ''D'')) ?s)"
    by blast
  from displayed_phase [of example_host "[]" "ReconnectDone ''D''" ?r] b u
  have d: "currentState (step (ReconnectDone ''D'') ?r) = Some NotAttached"
    by blast
  from a b c d show ?thesis by blast
qed

text \<open>
  The claim as stated fails: with Connected displayed and a restart of the kernel seen,
  the completion of the reconnect changes the displayed phase to NotAttached while the
  count of update requests stays at two.
\<close>

theorem reset_changes_display_without_update:
  "currentState (run [CurrentChanged (Some ''D''), ConnectionStatusChanged ''D'' connected,
       CommMsg 0 (example_data ''sparkconn-connected''), StatusChanged ''D'' restarting]
       (constructor example_host)) = Some (Connected 0) \<and>
   updates (run [CurrentChanged (Some ''D''), ConnectionStatusChanged ''D'' connected,
       CommMsg 0 (example_data ''sparkconn-connected''), StatusChanged ''D'' restarting]
       (constructor example_host)) = 2 \<and>
   currentState (run [CurrentChanged (Some ''D''), ConnectionStatusChanged ''D'' connected,
       CommMsg 0 (example_data ''sparkconn-connected''), StatusChanged ''D'' restarting,
       ReconnectDone ''D''] (constructor example_host)) = Some NotAttached \<and>
   updates (run [CurrentChanged (Some ''D''), ConnectionStatusChanged ''D'' connected,
       CommMsg 0 (example_data ''sparkconn-connected''), StatusChanged ''D'' restarting,
       ReconnectDone ''D''] (constructor example_host)) = 2"
  by (simp add: handler_defs example_defs)

subsection \<open>The saved configuration survives\<close>

lemma metadata_currentChanged_slot [simp]:
  "metadata (currentChanged_slot nbPanel s) = metadata s"
  by (cases nbPanel) (simp_all add: currentChanged_slot_def Let_def)

lemma metadata_ready_then [simp]: "metadata (ready_then nb s) = metadata s"
  by (simp add: ready_then_def open_def Let_def split: option.splits)

lemma metadata_run_ready [simp]: "metadata (run_ready nb s) = metadata s"
  by (simp add: run_ready_def funpow_field [where g = metadata])

lemma metadata_status_slot [simp]:
  "metadata (connectionStatusChanged_slot nb status s) = metadata s"
  by (simp add: connectionStatusChanged_slot_def create_def close_def Let_def)

lemma metadata_statusChanged_slot [simp]:
  "metadata (statusChanged_slot nb status s) = metadata s"
  by (simp add: statusChanged_slot_def)

lemma metadata_reconnect_then [simp]: "metadata (reconnect_then s) = metadata s"
  by (simp add: reconnect_then_def initStateHandling_def)

lemma metadata_onCommMessage [simp]: "metadata (onCommMessage data c s) = metadata s"
  by (simp add: onCommMessage_def Let_def split: option.splits)

lemma metadata_connected_slot [simp]:
  "metadata (connected_onReconfigure_slot c s) = metadata s"
  by (simp add: connected_onReconfigure_slot_def Let_def send_def)

lemma metadata_connectfailed_slot [simp]:
  "metadata (connectfailed_onReconfigure_slot c s) = metadata s"
  by (simp add: connectfailed_onReconfigure_slot_def Let_def send_def)

lemma onConnect_slot_metadata:
  "metadata (onConnect_slot c cm x s) =
     (metadata s)(notebook (comms s ! c) :=
        (metadata s (notebook (comms s ! c)))(''sparkconnect'' \<mapsto> cm_metadata cm)) \<and>
   notebook (comms (onConnect_slot c cm x s) ! c) = notebook (comms s ! c)"
  by (simp add: onConnect_slot_def Let_def send_def setCurrentConfigToNotebook_def)

lemma onConnect_fold_metadata:
  "metadata (fold (onConnect_slot c cm) xs s) =
     (if xs = [] then metadata s
      else (metadata s)(notebook (comms s ! c) :=
             (metadata s (notebook (comms s ! c)))(''sparkconnect'' \<mapsto> cm_metadata cm)))"
proof (induction xs arbitrary: s)
  case Nil
  show ?case by simp
next
  case (Cons x xs)
  let ?nb = "notebook (comms s ! c)"
  let ?m = "(metadata s ?nb)(''sparkconnect'' \<mapsto> cm_metadata cm)"
  let ?s1 = "onConnect_slot c cm x s"
  have m1: "metadata ?s1 = (metadata s)(?nb := ?m)" and n1: "notebook (comms ?s1 ! c) = ?nb"
    by (simp_all only: onConnect_slot_metadata)
  have "metadata (fold (onConnect_slot c cm) xs ?s1) = (metadata s)(?nb := ?m)"
  proof (cases "xs = []")
    case True
    then show ?thesis by (simp only: fold_simps m1)
  next
    case False
    then have "metadata (fold (onConnect_slot c cm) xs ?s1) =
        (metadata ?s1)(?nb := (metadata ?s1 ?nb)(''sparkconnect'' \<mapsto> cm_metadata cm))"
      by (simp only: Cons.IH n1 if_False)
    also have "\<dots> = (metadata s)(?nb := ?m)"
      by (simp only: m1 fun_upd_same fun_upd_upd)
    finally show ?thesis .
  qed
  then show ?case by (simp only: fold_simps o_apply list.simps if_False)
qed

lemma metadata_step:
  "metadata (step e s) =
     (case e of
        ConnectClicked c cm \<Rightarrow>
          if c < length (comms s) \<and> onConnect (states (comms s ! c)) \<noteq> []
          then (metadata s)(notebook (comms s ! c) :=
                 (metadata s (notebook (comms s ! c)))(''sparkconnect'' \<mapsto> cm_metadata cm))
          else metadata s
      | _ \<Rightarrow> metadata s)"
proof (cases e)
  case (CurrentChanged nbPanel)
  then show ?thesis
    by (cases nbPanel) (simp_all add: Let_def funpow_field [where g = metadata])
next
  case (ConnectClicked c cm)
  then show ?thesis by (simp add: onConnect_fold_metadata)
next
  case (OpenDone c)
  then show ?thesis by (simp add: open_then_def)
next
  case (CommClosed c)
  then show ?thesis by (simp add: onClose_def Let_def)
next
  case (CommMsg c data)
  then show ?thesis by (simp add: onMsg_def)
qed (simp_all add: funpow_field [where g = metadata])

lemma metadata_kept:
  "no_connect_for D es s \<Longrightarrow> metadata (run es s) D = metadata s D"
proof (induction es arbitrary: s)
  case Nil
  show ?case by (simp add: run_def)
next
  case (Cons e es)
  from Cons.prems have n: "no_connect_for D es (step e s)"
    and e: "case e of
         ConnectClicked c cm \<Rightarrow> \<not> (c < length (comms s) \<and> notebook (comms s ! c) = D)
       | _ \<Rightarrow> True"
    by simp_all
  have "metadata (step e s) D = metadata s D"
    using e unfolding metadata_step by (cases e) auto
  moreover have "metadata (run es (step e s)) D = metadata (step e s) D"
    by (rule Cons.IH [OF n])
  ultimately show ?case by (simp add: run_def)
qed

text \<open>
  C8. A connect action on a comm of \<open>D\<close> whose Configuring phase has a handler stores the
  configuration it carries under \<^verbatim>\<open>sparkconnect\<close> in the metadata of \<open>D\<close>. After any run
  of events without a further connect action on a comm of \<open>D\<close> (restarts of the kernel and
  resets included), the next open message with the configuration page handled for \<open>D\<close>
  reads that configuration back, displays Configuring and initialises it with that
  configuration.
\<close>

theorem saved_configuration_round_trip:
  assumes "c < length (comms s)" and "notebook (comms s ! c) = D"
    and "onConnect (states (comms s ! c)) \<noteq> []"
    and "no_connect_for D es (step (ConnectClicked c cm) s)"
    and "s' = run es (step (ConnectClicked c cm) s)"
    and "c' < length (comms s')" and "notebook (comms s' ! c') = D"
    and "\<not> isDisposed (comm (comms s' ! c'))" and "currentWidget s' = Some D"
    and "msgtype data = ''sparkconn-action-open''" and "page data = ''sparkconn-config''"
  shows "metadata (step (ConnectClicked c cm) s) D ''sparkconnect'' = Some (cm_metadata cm) \<and>
    getCurrentConfigFromNotebook D s' = cm_metadata cm \<and>
    currentState (step (CommMsg c' data) s') = Some (Configuring c') \<and>
    map_option cfg_currentConfig (configuring (states (comms (step (CommMsg c' data) s') ! c'))) =
      Some (cm_metadata cm)"
proof -
  have m: "metadata (step (ConnectClicked c cm) s) D ''sparkconnect'' = Some (cm_metadata cm)"
    using assms(1-3) by (simp only: metadata_step event.case) simp
  have "metadata s' D = metadata (step (ConnectClicked c cm) s) D"
    unfolding assms(5) by (rule metadata_kept) (rule assms(4))
  with m have g: "getCurrentConfigFromNotebook D s' = cm_metadata cm"
    by (simp add: getCurrentConfigFromNotebook_def)
  have h: "step (CommMsg c' data) s' = onCommMessage data c' s'"
    using assms(6-9) by (simp add: onMsg_def)
  have d: "currentState (onCommMessage data c' s') = Some (Configuring c')"
    using assms(10,11) by (simp add: onCommMessage_def Let_def)
  have i: "map_option cfg_currentConfig (configuring (states (comms (onCommMessage data c' s') ! c'))) =
      Some (getCurrentConfigFromNotebook D s')"
    using assms(6,7,10,11) by (simp add: onCommMessage_def Let_def with_states_def updateCurrent_def)
  from g i have j: "map_option cfg_currentConfig
      (configuring (states (comms (onCommMessage data c' s') ! c'))) = Some (cm_metadata cm)"
    by (simp only:)
  show ?thesis
    unfolding h using m g d j by blast
qed

theorem saved_configuration_round_trip_witness:
  "metadata (step (ConnectClicked 0 example_connect)
      (run [CurrentChanged (Some ''D''), ConnectionStatusChanged ''D'' connected,
            CommMsg 0 (example_data ''sparkconn-action-open'')] (constructor example_host)))
     ''D'' ''sparkconnect'' = Some \<lparr>bundled_options = [''b''], list_of_options = []\<rparr> \<and>
   currentState (step (CommMsg 1 (example_data ''sparkconn-action-open''))
     (run [CommMsg 0 (example_data ''sparkconn-connected''), StatusChanged ''D'' restarting,
           ReconnectDone ''D'', ConnectionStatusChanged ''D'' connected]
       (step (ConnectClicked 0 example_connect)
         (run [CurrentChanged (Some ''D''), ConnectionStatusChanged ''D'' connected,
               CommMsg 0 (example_data ''sparkconn-action-open'')] (constructor example_host))))) =
     Some (Configuring 1) \<and>
   map_option cfg_currentConfig (configuring (states (comms
     (step (CommMsg 1 (example_data ''sparkconn-action-open''))
       (run [CommMsg 0 (example_data ''sparkconn-connected''), StatusChanged ''D'' restarting,
             ReconnectDone ''D'', ConnectionStatusChanged ''D'' connected]
         (step (ConnectClicked 0 example_connect)
           (run [CurrentChanged (Some ''D''), ConnectionStatusChanged ''D'' connected,
                 CommMsg 0 (example_data ''sparkconn-action-open'')] (constructor example_host))))) ! 1))) =
     Some \<lparr>bundled_options = [''b''], list_of_options = []\<rparr>"
proof -
  let ?s = "run [CurrentChanged (Some ''D''), ConnectionStatusChanged ''D'' connected,
            CommMsg 0 (example_data ''sparkconn-action-open'')] (constructor example_host)"
  let ?es = "[CommMsg 0 (example_data ''sparkconn-connected''), StatusChanged ''D'' restarting,
           ReconnectDone ''D'', ConnectionStatusChanged ''D'' connected]"
  let ?s' = "run ?es (step (ConnectClicked 0 example_connect) ?s)"
  have 1: "0 < length (comms ?s)" and 2: "notebook (comms ?s ! 0) = ''D''"
    and 3: "onConnect (states (comms ?s ! 0)) \<noteq> []"
    by (simp_all add: handler_defs example_defs)
  have 4: "no_connect_for ''D'' ?es (step (ConnectClicked 0 example_connect) ?s)"
    by (simp add: handler_defs example_defs)
  have 6: "1 < length (comms ?s')" and 7: "notebook (comms ?s' ! 1) = ''D''"
    and 8: "\<not> isDisposed (comm (comms ?s' ! 1))" and 9: "currentWidget ?s' = Some ''D''"
    by (simp_all add: handler_defs example_defs)
  have 10: "msgtype (example_data ''sparkconn-action-open'') = ''sparkconn-action-open''"
    and 11: "page (example_data ''sparkconn-action-open'') = ''sparkconn-config''"
    and 12: "cm_metadata example_connect = \<lparr>bundled_options = [''b''], list_of_options = []\<rparr>"
    by (simp_all add: example_defs)
  from saved_configuration_round_trip [OF 1 2 3 4 refl 6 7 8 9 10 11]
  show ?thesis
    by (simp only: 12)
qed

end
